theory Spec2Isabelle
  imports Complex_Main "HOL-Library.Monad_Syntax"
begin

section \<open>Numbers\<close>

text \<open>
  The engine computes with JavaScript numbers. They are modelled as exact real numbers,
  without rounding; the section on double arithmetic below gives the distributor once
  more with every operation rounded as the program rounds it. A division by zero, which
  JavaScript answers with Infinity or NaN and then carries on with, is made explicit:
  \<open>jdiv\<close> returns \<open>None\<close>, and a function whose result is \<open>None\<close> is one whose
  computation has left the finite numbers. Division by a non-zero literal (\<open>/ 2\<close>) is
  written as plain division.
\<close>

definition jdiv :: "real \<Rightarrow> real \<Rightarrow> real option" where
  "jdiv a b = (if b = 0 then None else Some (a / b))"

text \<open>Truthiness of a number in a condition (\<open>x ? a : b\<close>, \<open>x && y\<close>): zero is falsy.\<close>

definition truthy :: "real \<Rightarrow> bool" where
  "truthy x = (x \<noteq> 0)"

section \<open>Data model\<close>

text \<open>
  The interfaces \<open>MatchMarkets\<close> (src/unnamed/part_000) and \<open>ScoreProbability\<close>
  (src/unnamed/part_001, the module \<open>utils/oddsConverter\<close>), with a record for each
  inline object type. An optional field is an \<open>option\<close>.
\<close>

record H2H =
  home :: real
  draw :: "real option"
  away :: real

record Totals =
  point :: real
  over :: real
  under :: real

record BothTeamsToScore =
  yes :: real
  no :: real

record ScoreOdds =
  score :: string
  odds :: real

record CorrectScore =
  scores :: "ScoreOdds list"

text \<open>
  The parameter type of \<open>generateMissingMarkets\<close>: an object with optional \<open>h2h\<close> and
  \<open>totals\<close>. \<open>MatchMarkets\<close> extends it, so that a \<open>MatchMarkets\<close> value can be passed
  where the smaller object is expected, as TypeScript's structural typing allows.
\<close>

record Match =
  h2h :: "H2H option"
  totals :: "Totals option"

record MatchMarkets = Match +
  bothTeamsToScore :: "BothTeamsToScore option"
  correctScore :: "CorrectScore option"

record ScoreProbability =
  home_score :: nat
  away_score :: nat
  probability :: real

section \<open>Shared code fragments\<close>

text \<open>
  \<open>reduce((sum, sp) => sum + sp.probability, 0)\<close>: a left fold from 0.
\<close>

definition totalProbability :: "ScoreProbability list \<Rightarrow> real" where
  "totalProbability sps = foldl (\<lambda>sum sp. sum + probability sp) 0 sps"

text \<open>
  The renormalisation block, which the source repeats verbatim three times:
  \<^verbatim>\<open>
  const totalAdjusted = scoreProbabilities.reduce((sum, sp) => sum + sp.probability, 0)
  scoreProbabilities = scoreProbabilities.map(sp => ({
    ...sp, probability: sp.probability / totalAdjusted }))
  \<close>
  One division per element, none guarded.
\<close>

fun divideAll :: "real \<Rightarrow> ScoreProbability list \<Rightarrow> ScoreProbability list option" where
  "divideAll t [] = Some []"
| "divideAll t (sp # sps) =
     do {
       q \<leftarrow> jdiv (probability sp) t;
       rest \<leftarrow> divideAll t sps;
       Some (sp\<lparr>probability := q\<rparr> # rest)
     }"

definition renormalize :: "ScoreProbability list \<Rightarrow> ScoreProbability list option" where
  "renormalize sps = divideAll (totalProbability sps) sps"

text \<open>
  The body of each \<open>for (const score of ...) scoreProbabilities.push({...})\<close> loop: one
  entry per catalogue triple (home, away, weight).
\<close>

definition pushScores :: "real \<Rightarrow> (nat \<times> nat \<times> real) list \<Rightarrow> ScoreProbability list" where
  "pushScores normProb catalogue =
     map (\<lambda>(h, a, w). \<lparr>home_score = h, away_score = a, probability = normProb * w\<rparr>)
       catalogue"

section \<open>oddsToProbabilities (src/unnamed/part_000)\<close>

text \<open>The three catalogues, as triples (home, away, weight).\<close>

definition homeWinScores :: "(nat \<times> nat \<times> real) list" where
  "homeWinScores =
     [(1, 0, 0.35), (2, 0, 0.20), (2, 1, 0.18), (3, 0, 0.10), (3, 1, 0.10), (4, 0, 0.04),
      (3, 2, 0.03)]"

definition drawScores :: "(nat \<times> nat \<times> real) list" where
  "drawScores = [(0, 0, 0.30), (1, 1, 0.40), (2, 2, 0.20), (3, 3, 0.10)]"

definition awayWinScores :: "(nat \<times> nat \<times> real) list" where
  "awayWinScores =
     [(0, 1, 0.35), (0, 2, 0.20), (1, 2, 0.18), (0, 3, 0.10), (1, 3, 0.10), (0, 4, 0.04),
      (2, 3, 0.03)]"

text \<open>The callback of the totals adjustment's \<open>map\<close>.\<close>

definition adjustTotals :: "real \<Rightarrow> real \<Rightarrow> ScoreProbability \<Rightarrow> ScoreProbability" where
  "adjustTotals pt normOver sp =
     (let totalGoals = real (home_score sp + away_score sp) in
      if totalGoals > pt then sp\<lparr>probability := probability sp * (0.5 + normOver * 0.5)\<rparr>
      else if totalGoals < pt then
        sp\<lparr>probability := probability sp * (0.5 + (1 - normOver) * 0.5)\<rparr>
      else sp)"

text \<open>The callback of the both-teams-to-score adjustment's \<open>map\<close>.\<close>

definition adjustBTTS :: "real \<Rightarrow> ScoreProbability \<Rightarrow> ScoreProbability" where
  "adjustBTTS normBTTSYes sp =
     (let bothScored = (home_score sp > 0 \<and> away_score sp > 0) in
      if bothScored then sp\<lparr>probability := probability sp * (0.5 + normBTTSYes * 0.5)\<rparr>
      else sp\<lparr>probability := probability sp * (0.5 + (1 - normBTTSYes) * 0.5)\<rparr>)"

text \<open>
  The function itself. Its second parameter \<open>_supportedMarkets\<close> is never read and is
  left out. The three \<open>for\<close> loops append to the list in turn.
\<close>

definition oddsToProbabilities ::
  "'a MatchMarkets_scheme \<Rightarrow> ScoreProbability list option" where
  "oddsToProbabilities markets =
     (case h2h markets of
        None \<Rightarrow> Some []
      | Some w \<Rightarrow>
          do {
            homeProb \<leftarrow> jdiv 1 (home w);
            drawProb \<leftarrow> (case draw w of
                           None \<Rightarrow> Some 0
                         | Some d \<Rightarrow> if truthy d then jdiv 1 d else Some 0);
            awayProb \<leftarrow> jdiv 1 (away w);
            let total = homeProb + drawProb + awayProb;
            normHome \<leftarrow> jdiv homeProb total;
            normDraw \<leftarrow> jdiv drawProb total;
            normAway \<leftarrow> jdiv awayProb total;
            let scoreProbabilities =
                  pushScores normHome homeWinScores @ pushScores normDraw drawScores
                  @ pushScores normAway awayWinScores;
            scoreProbabilities \<leftarrow>
              (case totals markets of
                 None \<Rightarrow> Some scoreProbabilities
               | Some t \<Rightarrow>
                   do {
                     overProb \<leftarrow> jdiv 1 (over t);
                     underProb \<leftarrow> jdiv 1 (under t);
                     let totalProb = overProb + underProb;
                     normOver \<leftarrow> jdiv overProb totalProb;
                     renormalize (map (adjustTotals (point t) normOver) scoreProbabilities)
                   });
            (case bothTeamsToScore markets of
               None \<Rightarrow> Some scoreProbabilities
             | Some b \<Rightarrow>
                 do {
                   bttsYesProb \<leftarrow> jdiv 1 (yes b);
                   bttsNoProb \<leftarrow> jdiv 1 (no b);
                   let totalBTTS = bttsYesProb + bttsNoProb;
                   normBTTSYes \<leftarrow> jdiv bttsYesProb totalBTTS;
                   renormalize (map (adjustBTTS normBTTSYes) scoreProbabilities)
                 })
          })"

section \<open>oddsToScoreProbabilities, oddsToScoreProbabilitiesWithTotals (src/unnamed/part_001)\<close>

text \<open>The three catalogues as this module writes them out again.\<close>

definition homeWinScores_conv :: "(nat \<times> nat \<times> real) list" where
  "homeWinScores_conv =
     [(1, 0, 0.35), (2, 0, 0.20), (2, 1, 0.18), (3, 0, 0.10), (3, 1, 0.10), (4, 0, 0.04),
      (3, 2, 0.03)]"

definition drawScores_conv :: "(nat \<times> nat \<times> real) list" where
  "drawScores_conv = [(0, 0, 0.30), (1, 1, 0.40), (2, 2, 0.20), (3, 3, 0.10)]"

definition awayWinScores_conv :: "(nat \<times> nat \<times> real) list" where
  "awayWinScores_conv =
     [(0, 1, 0.35), (0, 2, 0.20), (1, 2, 0.18), (0, 3, 0.10), (1, 3, 0.10), (0, 4, 0.04),
      (2, 3, 0.03)]"

definition oddsToScoreProbabilities ::
  "real \<Rightarrow> real option \<Rightarrow> real \<Rightarrow> ScoreProbability list option" where
  "oddsToScoreProbabilities homeOdds drawOdds awayOdds =
     do {
       homeProb \<leftarrow> jdiv 1 homeOdds;
       drawProb \<leftarrow> (case drawOdds of
                      None \<Rightarrow> Some 0
                    | Some d \<Rightarrow> if truthy d then jdiv 1 d else Some 0);
       awayProb \<leftarrow> jdiv 1 awayOdds;
       let total = homeProb + drawProb + awayProb;
       normHome \<leftarrow> jdiv homeProb total;
       normDraw \<leftarrow> jdiv drawProb total;
       normAway \<leftarrow> jdiv awayProb total;
       Some (pushScores normHome homeWinScores_conv @ pushScores normDraw drawScores_conv
             @ pushScores normAway awayWinScores_conv)
     }"

text \<open>The callback of the variant's \<open>map\<close>: below the point it uses \<open>normUnder\<close>.\<close>

definition adjustTotals_conv ::
  "real \<Rightarrow> real \<Rightarrow> real \<Rightarrow> ScoreProbability \<Rightarrow> ScoreProbability" where
  "adjustTotals_conv totalsPoint normOver normUnder sp =
     (let totalGoals = real (home_score sp + away_score sp) in
      if totalGoals > totalsPoint then
        sp\<lparr>probability := probability sp * (0.5 + normOver * 0.5)\<rparr>
      else if totalGoals < totalsPoint then
        sp\<lparr>probability := probability sp * (0.5 + normUnder * 0.5)\<rparr>
      else sp)"

text \<open>
  The three optional parameters are \<open>number | undefined\<close>; the guard
  \<open>totalsPoint && overOdds && underOdds\<close> needs each of them present and non-zero.
\<close>

definition oddsToScoreProbabilitiesWithTotals ::
  "real \<Rightarrow> real option \<Rightarrow> real \<Rightarrow> real option \<Rightarrow> real option \<Rightarrow> real option
   \<Rightarrow> ScoreProbability list option" where
  "oddsToScoreProbabilitiesWithTotals homeOdds drawOdds awayOdds totalsPoint overOdds underOdds =
     do {
       scoreProbabilities \<leftarrow> oddsToScoreProbabilities homeOdds drawOdds awayOdds;
       (case (totalsPoint, overOdds, underOdds) of
          (Some pt, Some ov, Some un) \<Rightarrow>
            if truthy pt \<and> truthy ov \<and> truthy un then
              do {
                overProb \<leftarrow> jdiv 1 ov;
                underProb \<leftarrow> jdiv 1 un;
                let totalProb = overProb + underProb;
                normOver \<leftarrow> jdiv overProb totalProb;
                normUnder \<leftarrow> jdiv underProb totalProb;
                renormalize (map (adjustTotals_conv pt normOver normUnder) scoreProbabilities)
              }
            else Some scoreProbabilities
        | _ \<Rightarrow> Some scoreProbabilities)
     }"

section \<open>generateMissingMarkets (src/unnamed/part_000)\<close>

text \<open>
  The \<open>commonScores\<close> array of the correct-score block: label and probability before
  normalisation.
\<close>

definition commonScores :: "real \<Rightarrow> real \<Rightarrow> real \<Rightarrow> (string \<times> real) list" where
  "commonScores homeProb awayProb drawProb =
     [(''0-0'', drawProb * 0.2),
      (''1-0'', homeProb * 0.15),
      (''0-1'', awayProb * 0.15),
      (''1-1'', drawProb * 0.3),
      (''2-0'', homeProb * 0.12),
      (''0-2'', awayProb * 0.12),
      (''2-1'', homeProb * 0.18),
      (''1-2'', awayProb * 0.18),
      (''2-2'', drawProb * 0.2),
      (''3-0'', homeProb * 0.08),
      (''0-3'', awayProb * 0.08),
      (''3-1'', homeProb * 0.1),
      (''1-3'', awayProb * 0.1),
      (''3-2'', (homeProb + awayProb) * 0.05),
      (''4-0'', homeProb * 0.03),
      (''0-4'', awayProb * 0.03)]"

text \<open>
  \<open>commonScores.map(s => ({score: s.score, odds: (1 / (s.prob / totalProb)) * margin}))\<close>:
  two divisions per element.
\<close>

fun scoreOddsAll :: "real \<Rightarrow> real \<Rightarrow> (string \<times> real) list \<Rightarrow> ScoreOdds list option" where
  "scoreOddsAll totalProb margin [] = Some []"
| "scoreOddsAll totalProb margin ((s, prob) # rest) =
     do {
       share \<leftarrow> jdiv prob totalProb;
       fair \<leftarrow> jdiv 1 share;
       more \<leftarrow> scoreOddsAll totalProb margin rest;
       Some (\<lparr>score = s, odds = fair * margin\<rparr> # more)
     }"

text \<open>\<open>match.h2h.draw ? 1 / match.h2h.draw : 0.34\<close>, used by two of the blocks.\<close>

definition drawProbOr034 :: "real option \<Rightarrow> real option" where
  "drawProbOr034 d =
     (case d of None \<Rightarrow> Some 0.34 | Some x \<Rightarrow> if truthy x then jdiv 1 x else Some 0.34)"

text \<open>
  The object \<open>markets\<close> is built from \<open>h2h\<close> and \<open>totals\<close> of the argument alone; the
  three blocks then fill it in. The tests \<open>!markets.bothTeamsToScore\<close> and
  \<open>!markets.correctScore\<close> are kept as the source has them. The second parameter
  \<open>_supportedMarkets\<close> is never read and is left out.
\<close>

definition generateMissingMarkets :: "'a Match_scheme \<Rightarrow> MatchMarkets option" where
  "generateMissingMarkets match =
     (let markets = \<lparr>h2h = h2h match, totals = totals match,
                     bothTeamsToScore = None, correctScore = None\<rparr> in
      do {
        markets \<leftarrow>
          (case bothTeamsToScore markets of
             Some _ \<Rightarrow> Some markets
           | None \<Rightarrow>
               do {
                 homeProb \<leftarrow> (case h2h match of Some w \<Rightarrow> jdiv 1 (home w) | None \<Rightarrow> Some 0.33);
                 awayProb \<leftarrow> (case h2h match of Some w \<Rightarrow> jdiv 1 (away w) | None \<Rightarrow> Some 0.33);
                 teamBalance \<leftarrow> jdiv (min homeProb awayProb) (max homeProb awayProb);
                 let avgWinProb = (homeProb + awayProb) / 2;
                 let bttsProb = 0.4 + (teamBalance * 0.3) + (avgWinProb * 0.2);
                 let margin = 1.05;
                 fairYes \<leftarrow> jdiv 1 bttsProb;
                 fairNo \<leftarrow> jdiv 1 (1 - bttsProb);
                 Some (markets\<lparr>bothTeamsToScore :=
                         Some \<lparr>yes = fairYes * margin, no = fairNo * margin\<rparr>\<rparr>)
               });
        markets \<leftarrow>
          (case totals match of
             Some _ \<Rightarrow> Some markets
           | None \<Rightarrow>
               (case h2h match of
                  None \<Rightarrow> Some markets
                | Some w \<Rightarrow>
                    do {
                      homeProb \<leftarrow> jdiv 1 (home w);
                      awayProb \<leftarrow> jdiv 1 (away w);
                      drawProb \<leftarrow> drawProbOr034 (draw w);
                      let attackRating = (homeProb + awayProb) / 2;
                      let over25Prob = 0.3 + (attackRating * 0.4) - (drawProb * 0.2);
                      let margin = 1.05;
                      fairOver \<leftarrow> jdiv 1 over25Prob;
                      fairUnder \<leftarrow> jdiv 1 (1 - over25Prob);
                      Some (markets\<lparr>totals :=
                              Some \<lparr>point = 2.5, over = fairOver * margin,
                                    under = fairUnder * margin\<rparr>\<rparr>)
                    }));
        (case (correctScore markets, h2h match) of
           (None, Some w) \<Rightarrow>
             do {
               homeProb \<leftarrow> jdiv 1 (home w);
               awayProb \<leftarrow> jdiv 1 (away w);
               drawProb \<leftarrow> drawProbOr034 (draw w);
               let cs = commonScores homeProb awayProb drawProb;
               let totalProb = foldl (\<lambda>sum s. sum + snd s) 0 cs;
               let margin = 1.1;
               os \<leftarrow> scoreOddsAll totalProb margin cs;
               Some (markets\<lparr>correctScore := Some \<lparr>scores = os\<rparr>\<rparr>)
             }
         | _ \<Rightarrow> Some markets)
      })"

section \<open>Definitions used in the statements\<close>

subsection \<open>Well-formed markets\<close>

text \<open>
  A well-formed win market, as the data model describes it: home and away odds above 1,
  draw odds either absent or above 1. \<open>validMatchWin\<close> also admits a match without a
  win market. For the totals and both-teams-to-score markets the statements ask for
  positive odds only.
\<close>

definition validWin :: "H2H \<Rightarrow> bool" where
  "validWin w = (home w > 1 \<and> away w > 1 \<and> (case draw w of None \<Rightarrow> True | Some d \<Rightarrow> d > 1))"

definition validMatchWin :: "H2H option \<Rightarrow> bool" where
  "validMatchWin wm = (case wm of None \<Rightarrow> True | Some w \<Rightarrow> validWin w)"

definition validTotals :: "Totals option \<Rightarrow> bool" where
  "validTotals tm = (case tm of None \<Rightarrow> True | Some t \<Rightarrow> 0 < over t \<and> 0 < under t)"

definition validBTTS :: "BothTeamsToScore option \<Rightarrow> bool" where
  "validBTTS bm = (case bm of None \<Rightarrow> True | Some b \<Rightarrow> 0 < yes b \<and> 0 < no b)"

subsection \<open>The formulas of the specification\<close>

text \<open>
  These follow the specification's wording, in plain real arithmetic, and are what the
  functions above are compared with.

  The draw implied probability of the distributor (0 without draw odds) and the sum of the
  three implied probabilities, by which the distributor normalises.
\<close>

definition drawImplied :: "H2H \<Rightarrow> real" where
  "drawImplied w = (case draw w of None \<Rightarrow> 0 | Some d \<Rightarrow> 1 / d)"

definition winTotal :: "H2H \<Rightarrow> real" where
  "winTotal w = 1 / home w + drawImplied w + 1 / away w"

text \<open>
  The margin-normalised over (yes) probability, and the factor of a scoreline in the
  totals and in the both-teams-to-score conditioning.
\<close>

definition normOverOf :: "Totals \<Rightarrow> real" where
  "normOverOf t = (1 / over t) / (1 / over t + 1 / under t)"

definition normYesOf :: "BothTeamsToScore \<Rightarrow> real" where
  "normYesOf b = (1 / yes b) / (1 / yes b + 1 / no b)"

definition totalsFactor :: "real \<Rightarrow> real \<Rightarrow> ScoreProbability \<Rightarrow> real" where
  "totalsFactor pt normOver sp =
     (if real (home_score sp + away_score sp) > pt then 0.5 + 0.5 * normOver
      else if real (home_score sp + away_score sp) < pt then 0.5 + 0.5 * (1 - normOver)
      else 1)"

definition bttsFactor :: "real \<Rightarrow> ScoreProbability \<Rightarrow> real" where
  "bttsFactor normYes sp =
     (if home_score sp > 0 \<and> away_score sp > 0 then 0.5 + 0.5 * normYes
      else 0.5 + 0.5 * (1 - normYes))"

text \<open>
  The both-teams-to-score probability of the market normaliser:
  \<open>0.4 + 0.3 * balance + 0.2 * avgWinProb\<close>, from the implied probabilities of home and
  away, or from 0.33 and 0.33 without a win market.
\<close>

definition bttsProbability :: "H2H option \<Rightarrow> real" where
  "bttsProbability wm =
     (let homeImpliedProb = (case wm of None \<Rightarrow> 0.33 | Some w \<Rightarrow> 1 / home w);
          awayImpliedProb = (case wm of None \<Rightarrow> 0.33 | Some w \<Rightarrow> 1 / away w);
          balance = min homeImpliedProb awayImpliedProb / max homeImpliedProb awayImpliedProb;
          avgWinProb = (homeImpliedProb + awayImpliedProb) / 2
      in 0.4 + 0.3 * balance + 0.2 * avgWinProb)"

text \<open>
  The correct-score catalogue as a table: label, the outcomes whose implied probabilities
  are added up, and the weight. Every scoreline names one outcome, except 3-2, which names
  two. The draw implied probability of the market normaliser is 0.34 without draw odds.
\<close>

definition drawImplied034 :: "H2H \<Rightarrow> real" where
  "drawImplied034 w = (case draw w of None \<Rightarrow> 0.34 | Some d \<Rightarrow> 1 / d)"

datatype outcome = HomeWin | DrawOutcome | AwayWin

definition impliedProbabilityOf :: "H2H \<Rightarrow> outcome \<Rightarrow> real" where
  "impliedProbabilityOf w oc =
     (case oc of
        HomeWin \<Rightarrow> 1 / home w
      | DrawOutcome \<Rightarrow> drawImplied034 w
      | AwayWin \<Rightarrow> 1 / away w)"

definition scoreCatalogue :: "(string \<times> outcome list \<times> real) list" where
  "scoreCatalogue =
     [(''0-0'', [DrawOutcome], 0.2),
      (''1-0'', [HomeWin], 0.15),
      (''0-1'', [AwayWin], 0.15),
      (''1-1'', [DrawOutcome], 0.3),
      (''2-0'', [HomeWin], 0.12),
      (''0-2'', [AwayWin], 0.12),
      (''2-1'', [HomeWin], 0.18),
      (''1-2'', [AwayWin], 0.18),
      (''2-2'', [DrawOutcome], 0.2),
      (''3-0'', [HomeWin], 0.08),
      (''0-3'', [AwayWin], 0.08),
      (''3-1'', [HomeWin], 0.1),
      (''1-3'', [AwayWin], 0.1),
      (''3-2'', [HomeWin, AwayWin], 0.05),
      (''4-0'', [HomeWin], 0.03),
      (''0-4'', [AwayWin], 0.03)]"

definition preNormalised :: "H2H \<Rightarrow> string \<times> outcome list \<times> real \<Rightarrow> real" where
  "preNormalised w e =
     (case e of (s, ocs, wt) \<Rightarrow> sum_list (map (impliedProbabilityOf w) ocs) * wt)"

text \<open>
  The base distribution written out: the 18 entries, each its class's normalised implied
  probability times the catalogue weight.
\<close>

definition baseDistribution :: "H2H \<Rightarrow> ScoreProbability list" where
  "baseDistribution w =
     (let homeProb = 1 / home w;
          drawProb = (case draw w of None \<Rightarrow> 0 | Some d \<Rightarrow> 1 / d);
          awayProb = 1 / away w;
          total = homeProb + drawProb + awayProb;
          nH = homeProb / total; nD = drawProb / total; nA = awayProb / total in
      [\<lparr>home_score = 1, away_score = 0, probability = nH * 0.35\<rparr>,
       \<lparr>home_score = 2, away_score = 0, probability = nH * 0.20\<rparr>,
       \<lparr>home_score = 2, away_score = 1, probability = nH * 0.18\<rparr>,
       \<lparr>home_score = 3, away_score = 0, probability = nH * 0.10\<rparr>,
       \<lparr>home_score = 3, away_score = 1, probability = nH * 0.10\<rparr>,
       \<lparr>home_score = 4, away_score = 0, probability = nH * 0.04\<rparr>,
       \<lparr>home_score = 3, away_score = 2, probability = nH * 0.03\<rparr>,
       \<lparr>home_score = 0, away_score = 0, probability = nD * 0.30\<rparr>,
       \<lparr>home_score = 1, away_score = 1, probability = nD * 0.40\<rparr>,
       \<lparr>home_score = 2, away_score = 2, probability = nD * 0.20\<rparr>,
       \<lparr>home_score = 3, away_score = 3, probability = nD * 0.10\<rparr>,
       \<lparr>home_score = 0, away_score = 1, probability = nA * 0.35\<rparr>,
       \<lparr>home_score = 0, away_score = 2, probability = nA * 0.20\<rparr>,
       \<lparr>home_score = 1, away_score = 2, probability = nA * 0.18\<rparr>,
       \<lparr>home_score = 0, away_score = 3, probability = nA * 0.10\<rparr>,
       \<lparr>home_score = 1, away_score = 3, probability = nA * 0.10\<rparr>,
       \<lparr>home_score = 0, away_score = 4, probability = nA * 0.04\<rparr>,
       \<lparr>home_score = 2, away_score = 3, probability = nA * 0.03\<rparr>])"

text \<open>
  The margin-normalised under probability, and a list with every probability divided by
  the list's sum.
\<close>

definition normUnderOf :: "Totals \<Rightarrow> real" where
  "normUnderOf t = (1 / under t) / (1 / over t + 1 / under t)"

definition dividedBySum :: "ScoreProbability list \<Rightarrow> ScoreProbability list" where
  "dividedBySum sps = map (\<lambda>sp. sp\<lparr>probability := probability sp / totalProbability sps\<rparr>) sps"

section \<open>Parts of the functions\<close>

text \<open>
  The base distribution and the two conditioning steps of \<open>oddsToProbabilities\<close>, named
  so that statements and proofs can treat them one at a time;
  \<open>oddsToProbabilities_general\<close> and \<open>oddsToProbabilities_stages\<close> show that the
  function is their composition.
\<close>

definition winBase :: "H2H \<Rightarrow> ScoreProbability list" where
  "winBase w =
     pushScores ((1 / home w) / winTotal w) homeWinScores
     @ pushScores (drawImplied w / winTotal w) drawScores
     @ pushScores ((1 / away w) / winTotal w) awayWinScores"

definition totalsStage ::
  "Totals option \<Rightarrow> ScoreProbability list \<Rightarrow> ScoreProbability list option" where
  "totalsStage tm sps =
     (case tm of
        None \<Rightarrow> Some sps
      | Some t \<Rightarrow>
          do {
            overProb \<leftarrow> jdiv 1 (over t);
            underProb \<leftarrow> jdiv 1 (under t);
            normOver \<leftarrow> jdiv overProb (overProb + underProb);
            renormalize (map (adjustTotals (point t) normOver) sps)
          })"

definition bttsStage ::
  "BothTeamsToScore option \<Rightarrow> ScoreProbability list \<Rightarrow> ScoreProbability list option" where
  "bttsStage bm sps =
     (case bm of
        None \<Rightarrow> Some sps
      | Some b \<Rightarrow>
          do {
            bttsYesProb \<leftarrow> jdiv 1 (yes b);
            bttsNoProb \<leftarrow> jdiv 1 (no b);
            normBTTSYes \<leftarrow> jdiv bttsYesProb (bttsYesProb + bttsNoProb);
            renormalize (map (adjustBTTS normBTTSYes) sps)
          })"

text \<open>
  Both conditioning steps multiply each probability by a positive factor. A list is
  \<open>positive\<close> when no probability is negative and one at least is above zero; its sum
  is then above zero, and the renormalisation divides by a non-zero number.
\<close>

definition scaleBy :: "(ScoreProbability \<Rightarrow> real) \<Rightarrow> ScoreProbability \<Rightarrow> ScoreProbability" where
  "scaleBy c sp = sp\<lparr>probability := probability sp * c sp\<rparr>"

definition positive :: "ScoreProbability list \<Rightarrow> bool" where
  "positive sps =
     ((\<forall>sp \<in> set sps. 0 \<le> probability sp) \<and> (\<exists>sp \<in> set sps. 0 < probability sp))"

text \<open>
  The three blocks of \<open>generateMissingMarkets\<close>, each as a function of the markets it
  reads; \<open>generateMissingMarkets_blocks\<close> shows that the function runs them in turn.
\<close>

definition bttsBlock :: "H2H option \<Rightarrow> BothTeamsToScore option" where
  "bttsBlock wm =
     do {
       homeProb \<leftarrow> (case wm of Some w \<Rightarrow> jdiv 1 (home w) | None \<Rightarrow> Some 0.33);
       awayProb \<leftarrow> (case wm of Some w \<Rightarrow> jdiv 1 (away w) | None \<Rightarrow> Some 0.33);
       teamBalance \<leftarrow> jdiv (min homeProb awayProb) (max homeProb awayProb);
       fairYes \<leftarrow> jdiv 1 (0.4 + (teamBalance * 0.3) + ((homeProb + awayProb) / 2 * 0.2));
       fairNo \<leftarrow> jdiv 1 (1 - (0.4 + (teamBalance * 0.3) + ((homeProb + awayProb) / 2 * 0.2)));
       Some \<lparr>yes = fairYes * 1.05, no = fairNo * 1.05\<rparr>
     }"

definition totalsBlock :: "H2H option \<Rightarrow> Totals option \<Rightarrow> Totals option option" where
  "totalsBlock wm tm =
     (case tm of
        Some t \<Rightarrow> Some (Some t)
      | None \<Rightarrow>
          (case wm of
             None \<Rightarrow> Some None
           | Some w \<Rightarrow>
               do {
                 homeProb \<leftarrow> jdiv 1 (home w);
                 awayProb \<leftarrow> jdiv 1 (away w);
                 drawProb \<leftarrow> drawProbOr034 (draw w);
                 fairOver \<leftarrow> jdiv 1 (0.3 + ((homeProb + awayProb) / 2 * 0.4) - (drawProb * 0.2));
                 fairUnder \<leftarrow>
                   jdiv 1 (1 - (0.3 + ((homeProb + awayProb) / 2 * 0.4) - (drawProb * 0.2)));
                 Some (Some \<lparr>point = 2.5, over = fairOver * 1.05, under = fairUnder * 1.05\<rparr>)
               }))"

definition correctScoreBlock :: "H2H option \<Rightarrow> CorrectScore option option" where
  "correctScoreBlock wm =
     (case wm of
        None \<Rightarrow> Some None
      | Some w \<Rightarrow>
          do {
            homeProb \<leftarrow> jdiv 1 (home w);
            awayProb \<leftarrow> jdiv 1 (away w);
            drawProb \<leftarrow> drawProbOr034 (draw w);
            os \<leftarrow> scoreOddsAll
                    (foldl (\<lambda>sum s. sum + snd s) 0 (commonScores homeProb awayProb drawProb)) 1.1
                    (commonScores homeProb awayProb drawProb);
            Some (Some \<lparr>scores = os\<rparr>)
          })"

section \<open>The distributor in double arithmetic\<close>

text \<open>
  The definitions above compute in exact arithmetic. The program computes in IEEE 754
  doubles: every operation returns the exact result rounded to 53 significant bits, to
  the nearest, a tie going to the even significand. This section gives the rounding and
  the two distributor functions once more with every operation rounded, in the order in
  which the source evaluates it; a decimal literal of the source (0.35) is the double
  nearest to it, and arguments are taken to be doubles. Values are still reals, the
  representable ones. The exponent is not bounded, so that \<open>fl\<close> is the program's
  rounding for results in the normal range, from \<open>2^-1022\<close> up to the largest double;
  overflow to Infinity and subnormal results are not modelled. As before, \<open>None\<close> stands
  for a division by zero.

  \<open>scale53\<close> doubles or halves a positive number until it lies in \<open>[2^52, 2^53)\<close>, that
  is from 4503599627370496 up to 9007199254740992, and counts the exponent; its first
  argument bounds the number of steps.
\<close>

function scale53 :: "int \<Rightarrow> real \<Rightarrow> int \<Rightarrow> real \<times> int" where
  "scale53 fuel x e =
     (if fuel \<le> 0 then (x, e)
      else if x < 4503599627370496 then scale53 (fuel - 1) (2 * x) (e - 1)
      else if 9007199254740992 \<le> x then scale53 (fuel - 1) (x / 2) (e + 1)
      else (x, e))"
  by pat_completeness auto
termination
  by (relation "measure (\<lambda>(fuel, x, e). nat fuel)") auto

text \<open>Rounding to the nearest integer, a tie going to the even one.\<close>

definition roundEven :: "real \<Rightarrow> int" where
  "roundEven m =
     (let f = \<lfloor>m\<rfloor> in
      if m - of_int f < 1 / 2 then f
      else if 1 / 2 < m - of_int f then f + 1
      else if even f then f else f + 1)"

definition pow2 :: "int \<Rightarrow> real" where
  "pow2 e = (if 0 \<le> e then 2 ^ nat e else 1 / 2 ^ nat (- e))"

definition flpos :: "real \<Rightarrow> real" where
  "flpos x = (case scale53 2200 (x * 4503599627370496) (- 52) of (m, e) \<Rightarrow> of_int (roundEven m) * pow2 e)"

text \<open>The nearest double, and the four operations with their result rounded.\<close>

definition fl :: "real \<Rightarrow> real" where
  "fl x = (if x = 0 then 0 else if 0 < x then flpos x else - flpos (- x))"


definition dadd :: "real \<Rightarrow> real \<Rightarrow> real" where
  "dadd a b = fl (a + b)"

definition dsub :: "real \<Rightarrow> real \<Rightarrow> real" where
  "dsub a b = fl (a - b)"

definition dmul :: "real \<Rightarrow> real \<Rightarrow> real" where
  "dmul a b = fl (a * b)"

definition ddiv :: "real \<Rightarrow> real \<Rightarrow> real option" where
  "ddiv a b = (if b = 0 then None else Some (fl (a / b)))"

declare scale53.simps [simp del]

text \<open>The fragments and the two functions, operation by operation as in the source.\<close>

definition totalProbability_d :: "ScoreProbability list \<Rightarrow> real" where
  "totalProbability_d sps = foldl (\<lambda>sum sp. dadd sum (probability sp)) 0 sps"

fun divideAll_d :: "real \<Rightarrow> ScoreProbability list \<Rightarrow> ScoreProbability list option" where
  "divideAll_d t [] = Some []"
| "divideAll_d t (sp # sps) =
     do {
       q \<leftarrow> ddiv (probability sp) t;
       rest \<leftarrow> divideAll_d t sps;
       Some (sp\<lparr>probability := q\<rparr> # rest)
     }"

definition renormalize_d :: "ScoreProbability list \<Rightarrow> ScoreProbability list option" where
  "renormalize_d sps = divideAll_d (totalProbability_d sps) sps"

definition pushScores_d :: "real \<Rightarrow> (nat \<times> nat \<times> real) list \<Rightarrow> ScoreProbability list" where
  "pushScores_d normProb catalogue =
     map (\<lambda>(h, a, w). \<lparr>home_score = h, away_score = a, probability = dmul normProb (fl w)\<rparr>)
       catalogue"







section \<open>Arithmetic and list lemmas\<close>

lemma jdiv_Some: "b \<noteq> 0 \<Longrightarrow> jdiv a b = Some (a / b)"
  by (simp add: jdiv_def)

lemma jdiv_zero: "jdiv a 0 = None"
  by (simp add: jdiv_def)

lemma foldl_probability: "foldl (\<lambda>sum sp. sum + probability sp) z sps = z + sum_list (map probability sps)"
  by (induction sps arbitrary: z) simp_all

lemma totalProbability_sum: "totalProbability sps = sum_list (map probability sps)"
  by (simp add: totalProbability_def foldl_probability)

lemma divideAll_Some:
  "t \<noteq> 0 \<Longrightarrow> divideAll t sps = Some (map (\<lambda>sp. sp\<lparr>probability := probability sp / t\<rparr>) sps)"
  by (induction sps) (simp_all add: jdiv_Some)

lemma divideAll_zero: "sps \<noteq> [] \<Longrightarrow> divideAll 0 sps = None"
  by (cases sps) (simp_all add: jdiv_zero)

lemma sum_divided:
  "sum_list (map probability (map (\<lambda>sp. sp\<lparr>probability := probability sp / t\<rparr>) sps))
     = sum_list (map probability sps) / t"
  by (induction sps) (simp_all add: add_divide_distrib)

lemma renormalize_Some:
  assumes "totalProbability sps \<noteq> 0"
  shows "renormalize sps = Some (map (\<lambda>sp. sp\<lparr>probability := probability sp / totalProbability sps\<rparr>) sps)"
  using assms by (simp add: renormalize_def divideAll_Some)

lemma validWin_pos:
  assumes "validWin w"
  shows "home w \<noteq> 0" "away w \<noteq> 0" "0 < 1 / home w" "0 < 1 / away w" "0 \<le> drawImplied w"
    "0 < winTotal w" "1 / home w < 1" "1 / away w < 1" "drawImplied w < 1"
  using assms
  by (auto simp: validWin_def drawImplied_def winTotal_def add_pos_nonneg split: option.splits)

lemma drawProb_valid:
  assumes "validWin w"
  shows "(case draw w of None \<Rightarrow> Some 0 | Some d \<Rightarrow> if truthy d then jdiv 1 d else Some 0) = Some (drawImplied w)"
  using assms by (auto simp: validWin_def drawImplied_def truthy_def jdiv_Some split: option.splits)

lemma base_valid:
  assumes "validWin w"
  shows "oddsToScoreProbabilities (home w) (draw w) (away w) =
     Some (pushScores ((1 / home w) / winTotal w) homeWinScores_conv
         @ pushScores (drawImplied w / winTotal w) drawScores_conv
         @ pushScores ((1 / away w) / winTotal w) awayWinScores_conv)"
proof -
  note p = validWin_pos [OF assms]
  have t: "1 / home w + drawImplied w + 1 / away w \<noteq> 0"
    using p(6) by (simp add: winTotal_def)
  show ?thesis
    unfolding oddsToScoreProbabilities_def drawProb_valid [OF assms]
    using p(1,2) t by (simp add: jdiv_Some Let_def winTotal_def)
qed

lemma bttsStage_fun:
  "bttsStage None = Some"
  "bttsStage (Some b) = (\<lambda>sps. do {
            bttsYesProb \<leftarrow> jdiv 1 (yes b);
            bttsNoProb \<leftarrow> jdiv 1 (no b);
            normBTTSYes \<leftarrow> jdiv bttsYesProb (bttsYesProb + bttsNoProb);
            renormalize (map (adjustBTTS normBTTSYes) sps)
          })"
  by (rule ext, simp add: bttsStage_def)+

lemma oddsToProbabilities_stages:
  assumes "h2h m = Some w" "validWin w"
  shows "oddsToProbabilities m =
           totalsStage (totals m) (winBase w) \<bind> bttsStage (bothTeamsToScore m)"
proof -
  note p = validWin_pos [OF assms(2)]
  have t: "1 / home w + drawImplied w + 1 / away w \<noteq> 0"
    using p(6) by (simp add: winTotal_def)
  show ?thesis
    unfolding oddsToProbabilities_def assms(1) option.case drawProb_valid [OF assms(2)]
    using p(1,2) t
    by (cases "totals m"; cases "bothTeamsToScore m")
       (simp_all add: jdiv_Some Let_def winTotal_def winBase_def totalsStage_def bttsStage_fun
          Option.bind_assoc)
qed

lemma winBase_conv:
  "winBase w = pushScores ((1 / home w) / winTotal w) homeWinScores_conv
         @ pushScores (drawImplied w / winTotal w) drawScores_conv
         @ pushScores ((1 / away w) / winTotal w) awayWinScores_conv"
  by (simp add: winBase_def homeWinScores_def homeWinScores_conv_def drawScores_def
      drawScores_conv_def awayWinScores_def awayWinScores_conv_def)

lemma winBase_list:
  "winBase w =
     (let nH = (1 / home w) / winTotal w; nD = drawImplied w / winTotal w;
          nA = (1 / away w) / winTotal w in
      [\<lparr>home_score = 1, away_score = 0, probability = nH * 0.35\<rparr>,
       \<lparr>home_score = 2, away_score = 0, probability = nH * 0.20\<rparr>,
       \<lparr>home_score = 2, away_score = 1, probability = nH * 0.18\<rparr>,
       \<lparr>home_score = 3, away_score = 0, probability = nH * 0.10\<rparr>,
       \<lparr>home_score = 3, away_score = 1, probability = nH * 0.10\<rparr>,
       \<lparr>home_score = 4, away_score = 0, probability = nH * 0.04\<rparr>,
       \<lparr>home_score = 3, away_score = 2, probability = nH * 0.03\<rparr>,
       \<lparr>home_score = 0, away_score = 0, probability = nD * 0.30\<rparr>,
       \<lparr>home_score = 1, away_score = 1, probability = nD * 0.40\<rparr>,
       \<lparr>home_score = 2, away_score = 2, probability = nD * 0.20\<rparr>,
       \<lparr>home_score = 3, away_score = 3, probability = nD * 0.10\<rparr>,
       \<lparr>home_score = 0, away_score = 1, probability = nA * 0.35\<rparr>,
       \<lparr>home_score = 0, away_score = 2, probability = nA * 0.20\<rparr>,
       \<lparr>home_score = 1, away_score = 2, probability = nA * 0.18\<rparr>,
       \<lparr>home_score = 0, away_score = 3, probability = nA * 0.10\<rparr>,
       \<lparr>home_score = 1, away_score = 3, probability = nA * 0.10\<rparr>,
       \<lparr>home_score = 0, away_score = 4, probability = nA * 0.04\<rparr>,
       \<lparr>home_score = 2, away_score = 3, probability = nA * 0.03\<rparr>])"
  by (simp add: winBase_def pushScores_def homeWinScores_def drawScores_def awayWinScores_def Let_def)

lemma sum_pushScores:
  "sum_list (map probability (pushScores p cat)) = p * sum_list (map (\<lambda>(h, a, w). w) cat)"
  by (induction cat) (auto simp: pushScores_def algebra_simps)

lemma winBase_sum:
  assumes "validWin w"
  shows "sum_list (map probability (winBase w)) = 1"
proof -
  have "sum_list (map probability (winBase w))
      = (1 / home w) / winTotal w + drawImplied w / winTotal w + (1 / away w) / winTotal w"
    by (simp add: winBase_def sum_pushScores homeWinScores_def drawScores_def awayWinScores_def)
  also have "\<dots> = (1 / home w + drawImplied w + 1 / away w) / winTotal w"
    by (simp only: add_divide_distrib)
  also have "\<dots> = winTotal w / winTotal w"
    by (simp only: winTotal_def)
  also have "\<dots> = 1"
    using validWin_pos(6) [OF assms] by simp
  finally show ?thesis .
qed

lemma adjustTotals_scale: "adjustTotals pt nO = scaleBy (totalsFactor pt nO)"
  by (rule ext) (simp add: adjustTotals_def scaleBy_def totalsFactor_def Let_def mult.commute)

lemma adjustBTTS_scale: "adjustBTTS nY = scaleBy (bttsFactor nY)"
  by (rule ext) (simp add: adjustBTTS_def scaleBy_def bttsFactor_def Let_def mult.commute)

lemma half_factors:
  fixes x :: real
  assumes "0 < x" "x < 1"
  shows "0 < 1 / 2 + x / 2" and "0 < 1 / 2 + (1 - x) / 2"
proof -
  show "0 < 1 / 2 + x / 2" using assms by arith
  have "0 < (1 - x) / 2" using assms by simp
  then show "0 < 1 / 2 + (1 - x) / 2" by (intro add_pos_pos) simp_all
qed

lemma totalsFactor_pos: "0 < nO \<Longrightarrow> nO < 1 \<Longrightarrow> 0 < totalsFactor pt nO sp"
  by (simp add: totalsFactor_def half_factors)

lemma bttsFactor_pos: "0 < nY \<Longrightarrow> nY < 1 \<Longrightarrow> 0 < bttsFactor nY sp"
  by (simp add: bttsFactor_def half_factors)

lemma share_bounds:
  fixes a b :: real
  assumes "0 < a" "0 < b"
  shows "a + b \<noteq> 0" "0 < a / (a + b)" "a / (a + b) < 1"
  using assms by (simp_all add: add_pos_pos)

lemma scaleBy_scores [simp]:
  "home_score (scaleBy c sp) = home_score sp" "away_score (scaleBy c sp) = away_score sp"
  "probability (scaleBy c sp) = probability sp * c sp"
  by (simp_all add: scaleBy_def)

lemma positive_sum:
  assumes "positive sps"
  shows "0 < sum_list (map probability sps)"
proof -
  have nn: "\<And>x. x \<in> set (map probability sps) \<Longrightarrow> 0 \<le> x"
    using assms by (auto simp: positive_def)
  have "sum_list (map probability sps) \<noteq> 0"
    using assms sum_list_nonneg_eq_0_iff [of "map probability sps"] nn
    by (auto simp: positive_def)
  moreover have "0 \<le> sum_list (map probability sps)"
    using nn by (rule sum_list_nonneg)
  ultimately show ?thesis by simp
qed

lemma positive_scale:
  assumes "positive sps" "\<And>sp. 0 < c sp"
  shows "positive (map (scaleBy c) sps)"
proof -
  have "0 \<le> probability sp * c sp" if "sp \<in> set sps" for sp
    using that assms(1) assms(2) [of sp] by (simp add: positive_def)
  moreover obtain sp where "sp \<in> set sps" "0 < probability sp"
    using assms(1) by (auto simp: positive_def)
  then have "\<exists>sp \<in> set sps. 0 < probability sp * c sp"
    using assms(2) [of sp] by (intro bexI [of _ sp]) simp_all
  ultimately show ?thesis
    by (simp add: positive_def)
qed

lemma scale_scale:
  "map (\<lambda>sp. sp\<lparr>probability := probability sp / t\<rparr>) (map (scaleBy c) sps)
     = map (scaleBy (\<lambda>sp. c sp / t)) sps"
  by (simp add: scaleBy_def)

lemma renormalize_scale:
  assumes "positive sps" "\<And>sp. 0 < c sp"
  defines "S \<equiv> sum_list (map (\<lambda>sp. probability sp * c sp) sps)"
  shows "0 < S"
    and "renormalize (map (scaleBy c) sps) = Some (map (scaleBy (\<lambda>sp. c sp / S)) sps)"
    and "sum_list (map probability (map (scaleBy (\<lambda>sp. c sp / S)) sps)) = 1"
proof -
  have tot: "totalProbability (map (scaleBy c) sps) = S"
    by (simp add: totalProbability_sum S_def comp_def)
  show pos: "0 < S"
    using positive_sum [OF positive_scale [of sps c]] assms(1,2) tot
    by (simp add: totalProbability_sum)
  show "renormalize (map (scaleBy c) sps) = Some (map (scaleBy (\<lambda>sp. c sp / S)) sps)"
    using pos renormalize_Some [of "map (scaleBy c) sps"]
    by (simp only: tot scale_scale)
  have "sum_list (map probability (map (scaleBy (\<lambda>sp. c sp / S)) sps))
      = sum_list (map probability (map (scaleBy c) sps)) / S"
    by (simp only: scale_scale [symmetric] sum_divided)
  also have "\<dots> = S / S"
    using tot by (simp only: totalProbability_sum)
  finally show "sum_list (map probability (map (scaleBy (\<lambda>sp. c sp / S)) sps)) = 1"
    using pos by simp
qed

lemma normOverOf_bounds:
  assumes "0 < over t" "0 < under t"
  shows "0 < normOverOf t" "normOverOf t < 1" "1 / over t + 1 / under t \<noteq> 0"
  using share_bounds [of "1 / over t" "1 / under t"] assms
  by (simp_all add: normOverOf_def)

lemma normYesOf_bounds:
  assumes "0 < yes b" "0 < no b"
  shows "0 < normYesOf b" "normYesOf b < 1" "1 / yes b + 1 / no b \<noteq> 0"
  using share_bounds [of "1 / yes b" "1 / no b"] assms
  by (simp_all add: normYesOf_def)

lemma totalsStage_valid:
  assumes "positive sps" "0 < over t" "0 < under t"
  shows "totalsStage (Some t) sps =
           Some (map (scaleBy (\<lambda>sp. totalsFactor (point t) (normOverOf t) sp
                   / sum_list (map (\<lambda>x. probability x * totalsFactor (point t) (normOverOf t) x) sps)))
                 sps)"
proof -
  note b = normOverOf_bounds [OF assms(2,3)]
  have run: "totalsStage (Some t) sps = renormalize (map (adjustTotals (point t) (normOverOf t)) sps)"
    using assms(2,3) b(3) by (simp add: totalsStage_def jdiv_Some normOverOf_def)
  show ?thesis
    unfolding run adjustTotals_scale
    by (rule renormalize_scale(2) [OF assms(1)]) (rule totalsFactor_pos [OF b(1,2)])
qed

lemma bttsStage_valid:
  assumes "positive sps" "0 < yes b" "0 < no b"
  shows "bttsStage (Some b) sps =
           Some (map (scaleBy (\<lambda>sp. bttsFactor (normYesOf b) sp
                   / sum_list (map (\<lambda>x. probability x * bttsFactor (normYesOf b) x) sps)))
                 sps)"
proof -
  note bd = normYesOf_bounds [OF assms(2,3)]
  have run: "bttsStage (Some b) sps = renormalize (map (adjustBTTS (normYesOf b)) sps)"
    using assms(2,3) bd(3) by (simp add: bttsStage_def jdiv_Some normYesOf_def)
  show ?thesis
    unfolding run adjustBTTS_scale
    by (rule renormalize_scale(2) [OF assms(1)]) (rule bttsFactor_pos [OF bd(1,2)])
qed

lemma totalsStage_scaled:
  assumes "positive sps" "sum_list (map probability sps) = 1" "validTotals tm"
  shows "\<exists>k. (\<forall>sp. 0 < k sp) \<and> totalsStage tm sps = Some (map (scaleBy k) sps) \<and>
             sum_list (map probability (map (scaleBy k) sps)) = 1"
proof (cases tm)
  case None
  have "map (scaleBy (\<lambda>_. 1)) sps = sps"
    by (rule map_idI) (simp add: scaleBy_def)
  then show ?thesis
    using None assms(2) by (intro exI [of _ "\<lambda>_. 1"]) (simp add: totalsStage_def)
next
  case (Some t)
  then have ou: "0 < over t" "0 < under t"
    using assms(3) by (simp_all add: validTotals_def)
  note b = normOverOf_bounds [OF ou]
  let ?c = "totalsFactor (point t) (normOverOf t)"
  let ?S = "sum_list (map (\<lambda>x. probability x * ?c x) sps)"
  have c: "\<And>sp. 0 < ?c sp"
    by (rule totalsFactor_pos [OF b(1,2)])
  have S: "0 < ?S"
    by (rule renormalize_scale(1) [OF assms(1) c])
  have a: "\<forall>sp. 0 < ?c sp / ?S"
    using c S by simp
  have b: "totalsStage tm sps = Some (map (scaleBy (\<lambda>sp. ?c sp / ?S)) sps)"
    unfolding Some by (rule totalsStage_valid [OF assms(1) ou])
  have d: "sum_list (map probability (map (scaleBy (\<lambda>sp. ?c sp / ?S)) sps)) = 1"
    by (rule renormalize_scale(3) [OF assms(1) c])
  show ?thesis
    using a b d by (intro exI [of _ "\<lambda>sp. ?c sp / ?S"] conjI)
qed

lemma bttsStage_scaled:
  assumes "positive sps" "sum_list (map probability sps) = 1" "validBTTS bm"
  shows "\<exists>k. (\<forall>sp. 0 < k sp) \<and> bttsStage bm sps = Some (map (scaleBy k) sps) \<and>
             sum_list (map probability (map (scaleBy k) sps)) = 1"
proof (cases bm)
  case None
  have "map (scaleBy (\<lambda>_. 1)) sps = sps"
    by (rule map_idI) (simp add: scaleBy_def)
  then show ?thesis
    using None assms(2) by (intro exI [of _ "\<lambda>_. 1"]) (simp add: bttsStage_def)
next
  case (Some b)
  then have yn: "0 < yes b" "0 < no b"
    using assms(3) by (simp_all add: validBTTS_def)
  note bd = normYesOf_bounds [OF yn]
  let ?c = "bttsFactor (normYesOf b)"
  let ?S = "sum_list (map (\<lambda>x. probability x * ?c x) sps)"
  have c: "\<And>sp. 0 < ?c sp"
    by (rule bttsFactor_pos [OF bd(1,2)])
  have S: "0 < ?S"
    by (rule renormalize_scale(1) [OF assms(1) c])
  have a: "\<forall>sp. 0 < ?c sp / ?S"
    using c S by simp
  have b: "bttsStage bm sps = Some (map (scaleBy (\<lambda>sp. ?c sp / ?S)) sps)"
    unfolding Some by (rule bttsStage_valid [OF assms(1) yn])
  have d: "sum_list (map probability (map (scaleBy (\<lambda>sp. ?c sp / ?S)) sps)) = 1"
    by (rule renormalize_scale(3) [OF assms(1) c])
  show ?thesis
    using a b d by (intro exI [of _ "\<lambda>sp. ?c sp / ?S"] conjI)
qed

lemma scaleBy_twice:
  "map (scaleBy k2) (map (scaleBy k1) sps) = map (scaleBy (\<lambda>sp. k1 sp * k2 (scaleBy k1 sp))) sps"
  by (simp add: scaleBy_def mult.assoc)

lemma stages_scaled:
  assumes "positive sps" "sum_list (map probability sps) = 1" "validTotals tm" "validBTTS bm"
  shows "\<exists>k. (\<forall>sp. 0 < k sp) \<and> totalsStage tm sps \<bind> bttsStage bm = Some (map (scaleBy k) sps) \<and>
             sum_list (map probability (map (scaleBy k) sps)) = 1"
proof -
  obtain k1 where k1: "\<forall>sp. 0 < k1 sp" "totalsStage tm sps = Some (map (scaleBy k1) sps)"
      "sum_list (map probability (map (scaleBy k1) sps)) = 1"
    using totalsStage_scaled [OF assms(1,2,3)] by blast
  have pos1: "positive (map (scaleBy k1) sps)"
    using positive_scale [OF assms(1), of k1] k1(1) by simp
  obtain k2 where k2: "\<forall>sp. 0 < k2 sp"
      "bttsStage bm (map (scaleBy k1) sps) = Some (map (scaleBy k2) (map (scaleBy k1) sps))"
      "sum_list (map probability (map (scaleBy k2) (map (scaleBy k1) sps))) = 1"
    using bttsStage_scaled [OF pos1 k1(3) assms(4)] by blast
  let ?k = "\<lambda>sp. k1 sp * k2 (scaleBy k1 sp)"
  have a: "\<forall>sp. 0 < ?k sp"
    using k1(1) k2(1) by simp
  have b: "totalsStage tm sps \<bind> bttsStage bm = Some (map (scaleBy ?k) sps)"
    by (simp only: k1(2) Option.bind.simps k2(2) scaleBy_twice)
  have c: "sum_list (map probability (map (scaleBy ?k) sps)) = 1"
    using k2(3) by (simp only: scaleBy_twice)
  show ?thesis
    using a b c by (intro exI [of _ ?k] conjI)
qed

lemma winBase_positive:
  assumes "validWin w"
  shows "positive (winBase w)"
proof -
  note p = validWin_pos [OF assms]
  have "0 < (1 / home w) / winTotal w" "0 \<le> drawImplied w / winTotal w"
       "0 < (1 / away w) / winTotal w"
    using p(3,4,5,6) by simp_all
  then show ?thesis
    unfolding winBase_list Let_def positive_def by simp
qed

lemma winBase_goals:
  "\<forall>sp \<in> set (winBase w). real (home_score sp + away_score sp) \<in> {0, 1, 2, 3, 4, 5, 6}"
  unfolding winBase_list Let_def by simp

lemma neutral_factor:
  assumes "real (home_score sp + away_score sp) \<noteq> pt"
  shows "totalsFactor pt (1 / 2) sp = 3 / 4"
  using assms by (auto simp: totalsFactor_def)

lemma normOverOf_neutral:
  assumes "over t = under t" "0 < over t"
  shows "normOverOf t = 1 / 2"
  using assms by (simp add: normOverOf_def)

lemma winBase_no_draw:
  assumes "draw w = None"
  shows "winBase w =
      [\<lparr>home_score = 1, away_score = 0, probability = (1 / home w) / winTotal w * 0.35\<rparr>,
       \<lparr>home_score = 2, away_score = 0, probability = (1 / home w) / winTotal w * 0.20\<rparr>,
       \<lparr>home_score = 2, away_score = 1, probability = (1 / home w) / winTotal w * 0.18\<rparr>,
       \<lparr>home_score = 3, away_score = 0, probability = (1 / home w) / winTotal w * 0.10\<rparr>,
       \<lparr>home_score = 3, away_score = 1, probability = (1 / home w) / winTotal w * 0.10\<rparr>,
       \<lparr>home_score = 4, away_score = 0, probability = (1 / home w) / winTotal w * 0.04\<rparr>,
       \<lparr>home_score = 3, away_score = 2, probability = (1 / home w) / winTotal w * 0.03\<rparr>,
       \<lparr>home_score = 0, away_score = 0, probability = 0\<rparr>,
       \<lparr>home_score = 1, away_score = 1, probability = 0\<rparr>,
       \<lparr>home_score = 2, away_score = 2, probability = 0\<rparr>,
       \<lparr>home_score = 3, away_score = 3, probability = 0\<rparr>,
       \<lparr>home_score = 0, away_score = 1, probability = (1 / away w) / winTotal w * 0.35\<rparr>,
       \<lparr>home_score = 0, away_score = 2, probability = (1 / away w) / winTotal w * 0.20\<rparr>,
       \<lparr>home_score = 1, away_score = 2, probability = (1 / away w) / winTotal w * 0.18\<rparr>,
       \<lparr>home_score = 0, away_score = 3, probability = (1 / away w) / winTotal w * 0.10\<rparr>,
       \<lparr>home_score = 1, away_score = 3, probability = (1 / away w) / winTotal w * 0.10\<rparr>,
       \<lparr>home_score = 0, away_score = 4, probability = (1 / away w) / winTotal w * 0.04\<rparr>,
       \<lparr>home_score = 2, away_score = 3, probability = (1 / away w) / winTotal w * 0.03\<rparr>]"
  unfolding winBase_list Let_def by (simp add: drawImplied_def assms)

lemma scaled_draws_zero:
  assumes "sps = map (scaleBy k) 
      [\<lparr>home_score = h0, away_score = a0, probability = p0\<rparr>,
       \<lparr>home_score = h1, away_score = a1, probability = p1\<rparr>,
       \<lparr>home_score = h2, away_score = a2, probability = p2\<rparr>,
       \<lparr>home_score = h3, away_score = a3, probability = p3\<rparr>,
       \<lparr>home_score = h4, away_score = a4, probability = p4\<rparr>,
       \<lparr>home_score = h5, away_score = a5, probability = p5\<rparr>,
       \<lparr>home_score = h6, away_score = a6, probability = p6\<rparr>,
       \<lparr>home_score = h7, away_score = a7, probability = 0\<rparr>,
       \<lparr>home_score = h8, away_score = a8, probability = 0\<rparr>,
       \<lparr>home_score = h9, away_score = a9, probability = 0\<rparr>,
       \<lparr>home_score = h10, away_score = a10, probability = 0\<rparr>,
       \<lparr>home_score = h11, away_score = a11, probability = p11\<rparr>,
       \<lparr>home_score = h12, away_score = a12, probability = p12\<rparr>,
       \<lparr>home_score = h13, away_score = a13, probability = p13\<rparr>,
       \<lparr>home_score = h14, away_score = a14, probability = p14\<rparr>,
       \<lparr>home_score = h15, away_score = a15, probability = p15\<rparr>,
       \<lparr>home_score = h16, away_score = a16, probability = p16\<rparr>,
       \<lparr>home_score = h17, away_score = a17, probability = p17\<rparr>]"
  shows "map (\<lambda>sp. (home_score sp, away_score sp)) sps =
          [(h0, a0), (h1, a1), (h2, a2), (h3, a3), (h4, a4), (h5, a5), (h6, a6), (h7, a7),
           (h8, a8), (h9, a9), (h10, a10), (h11, a11), (h12, a12), (h13, a13), (h14, a14),
           (h15, a15), (h16, a16), (h17, a17)]"
    and "probability (sps ! 7) = 0" and "probability (sps ! 8) = 0"
    and "probability (sps ! 9) = 0" and "probability (sps ! 10) = 0"
    and "sum_list (map probability (take 7 sps @ drop 11 sps)) = sum_list (map probability sps)"
  unfolding assms by simp_all

lemma totalsStage_fun:
  "totalsStage None = Some"
  "totalsStage (Some t) = (\<lambda>sps. do {
            overProb \<leftarrow> jdiv 1 (over t);
            underProb \<leftarrow> jdiv 1 (under t);
            normOver \<leftarrow> jdiv overProb (overProb + underProb);
            renormalize (map (adjustTotals (point t) normOver) sps)
          })"
  by (rule ext, simp add: totalsStage_def)+

lemma oddsToProbabilities_general:
  assumes "h2h m = Some w"
  shows "oddsToProbabilities m =
           oddsToScoreProbabilities (home w) (draw w) (away w)
             \<bind> totalsStage (totals m) \<bind> bttsStage (bothTeamsToScore m)"
  unfolding oddsToProbabilities_def oddsToScoreProbabilities_def assms option.case
  by (cases "totals m"; cases "bothTeamsToScore m")
     (simp_all add: Let_def totalsStage_fun bttsStage_fun 
        homeWinScores_def homeWinScores_conv_def drawScores_def drawScores_conv_def
        awayWinScores_def awayWinScores_conv_def)

lemma adjustTotals_conv_eq: "adjustTotals_conv pt nO (1 - nO) = adjustTotals pt nO"
  by (rule ext) (simp add: adjustTotals_conv_def adjustTotals_def)

lemma complement_share:
  fixes a b :: real
  assumes "a + b \<noteq> 0"
  shows "b / (a + b) = 1 - a / (a + b)"
proof -
  have "a / (a + b) + b / (a + b) = (a + b) / (a + b)"
    by (simp only: add_divide_distrib)
  then show ?thesis
    using assms by simp
qed

lemma variant_block:
  assumes "ov \<noteq> 0" "un \<noteq> 0"
  shows "do {
           overProb \<leftarrow> jdiv 1 ov;
           underProb \<leftarrow> jdiv 1 un;
           let totalProb = overProb + underProb;
           normOver \<leftarrow> jdiv overProb totalProb;
           normUnder \<leftarrow> jdiv underProb totalProb;
           renormalize (map (adjustTotals_conv pt normOver normUnder) sps)
         } = totalsStage (Some \<lparr>point = pt, over = ov, under = un\<rparr>) sps"
proof (cases "1 / ov + 1 / un = 0")
  case True
  then show ?thesis
    using assms by (simp add: totalsStage_def jdiv_Some jdiv_zero)
next
  case False
  have "(1 / un) / (1 / ov + 1 / un) = 1 - (1 / ov) / (1 / ov + 1 / un)"
    by (rule complement_share [OF False])
  then show ?thesis
    using assms False by (simp add: totalsStage_def jdiv_Some adjustTotals_conv_eq)
qed

lemma renormalize_zero:
  assumes "totalProbability sps = 0" "sps \<noteq> []"
  shows "renormalize sps = None"
  using assms by (simp add: renormalize_def divideAll_zero)

lemma renormalize_sum:
  assumes "totalProbability sps \<noteq> 0"
  shows "totalProbability
           (map (\<lambda>sp. sp\<lparr>probability := probability sp / totalProbability sps\<rparr>) sps) = 1"
  using assms by (simp only: totalProbability_sum sum_divided) simp

lemma generateMissingMarkets_blocks:
  "generateMissingMarkets match =
     do {
       b \<leftarrow> bttsBlock (h2h match);
       t \<leftarrow> totalsBlock (h2h match) (totals match);
       c \<leftarrow> correctScoreBlock (h2h match);
       Some \<lparr>h2h = h2h match, totals = t, bothTeamsToScore = Some b, correctScore = c\<rparr>
     }"
  unfolding generateMissingMarkets_def bttsBlock_def totalsBlock_def correctScoreBlock_def
  by (cases "h2h match"; cases "totals match") (simp_all add: Let_def)

lemma totalsBlock_fix:
  assumes "totalsBlock wm tm = Some t"
  shows "totalsBlock wm t = Some t"
proof (cases t)
  case None
  then show ?thesis
    using assms
    by (cases tm; cases wm) (auto simp: totalsBlock_def split: Option.bind_splits)
next
  case (Some x)
  then show ?thesis
    by (simp add: totalsBlock_def)
qed

lemma drawProbOr034_valid:
  assumes "validWin w"
  shows "drawProbOr034 (draw w) = Some (drawImplied034 w)"
    and "0 < drawImplied034 w" and "drawImplied034 w < 1"
  using assms
  by (auto simp: validWin_def drawProbOr034_def drawImplied034_def truthy_def jdiv_Some
      split: option.splits)

lemma balance_bounds:
  fixes h a :: real
  assumes "0 < h" "0 < a"
  shows "max h a \<noteq> 0" and "0 < min h a / max h a" and "min h a / max h a \<le> 1"
  using assms by (auto simp: min_def max_def)

lemma bttsProbability_bounds:
  fixes h a bal :: real
  assumes "0 < h" "h < 1" "0 < a" "a < 1" "0 < bal" "bal \<le> 1"
  shows "0.4 + (bal * 0.3) + ((h + a) / 2 * 0.2) \<noteq> 0"
    and "1 - (0.4 + (bal * 0.3) + ((h + a) / 2 * 0.2)) \<noteq> 0"
proof -
  have "0 < 0.4 + (bal * 0.3) + ((h + a) / 2 * 0.2)"
    using assms by (intro add_pos_pos) simp_all
  then show "0.4 + (bal * 0.3) + ((h + a) / 2 * 0.2) \<noteq> 0"
    by simp
  have "bal * 0.3 \<le> 0.3" "(h + a) / 2 * 0.2 < 0.2"
    using assms by simp_all
  then have "0.4 + (bal * 0.3) + ((h + a) / 2 * 0.2) < 1"
    by linarith
  then show "1 - (0.4 + (bal * 0.3) + ((h + a) / 2 * 0.2)) \<noteq> 0"
    by simp
qed

lemma bttsBlock_run:
  fixes h a :: real
  assumes "0 < h" "h < 1" "0 < a" "a < 1"
  shows "do {
       teamBalance \<leftarrow> jdiv (min h a) (max h a);
       fairYes \<leftarrow> jdiv 1 (0.4 + (teamBalance * 0.3) + ((h + a) / 2 * 0.2));
       fairNo \<leftarrow> jdiv 1 (1 - (0.4 + (teamBalance * 0.3) + ((h + a) / 2 * 0.2)));
       Some \<lparr>yes = fairYes * 1.05, no = fairNo * 1.05\<rparr>
     } = Some \<lparr>yes = (1 / (0.4 + 0.3 * (min h a / max h a) + 0.2 * ((h + a) / 2))) * 1.05,
              no = (1 / (1 - (0.4 + 0.3 * (min h a / max h a) + 0.2 * ((h + a) / 2)))) * 1.05\<rparr>"
proof -
  note bal = balance_bounds [OF assms(1,3)]
  note p = bttsProbability_bounds [OF assms bal(2,3)]
  show ?thesis
    using bal(1) p by (simp add: jdiv_Some mult.commute)
qed

lemma bttsBlock_valid:
  assumes "validMatchWin wm"
  shows "bttsBlock wm =
           Some \<lparr>yes = (1 / bttsProbability wm) * 1.05,
                 no = (1 / (1 - bttsProbability wm)) * 1.05\<rparr>"
proof (cases wm)
  case None
  show ?thesis
    unfolding bttsBlock_def bttsProbability_def None Let_def option.case Option.bind.simps
    by (rule bttsBlock_run) simp_all
next
  case (Some w)
  then have v: "validWin w"
    using assms by (simp add: validMatchWin_def)
  note p = validWin_pos [OF v]
  have "bttsBlock wm = do {
       teamBalance \<leftarrow> jdiv (min (1 / home w) (1 / away w)) (max (1 / home w) (1 / away w));
       fairYes \<leftarrow> jdiv 1 (0.4 + (teamBalance * 0.3) + ((1 / home w + 1 / away w) / 2 * 0.2));
       fairNo \<leftarrow> jdiv 1
                  (1 - (0.4 + (teamBalance * 0.3) + ((1 / home w + 1 / away w) / 2 * 0.2)));
       Some \<lparr>yes = fairYes * 1.05, no = fairNo * 1.05\<rparr>
     }"
    unfolding bttsBlock_def Some using p(1,2) by (simp add: jdiv_Some)
  also note bttsBlock_run [OF p(3,7,4,8)]
  finally show ?thesis
    by (simp only: bttsProbability_def Some Let_def option.case)
qed

lemma over25_bounds:
  fixes h a d :: real
  assumes "0 < h" "h < 1" "0 < a" "a < 1" "0 < d" "d < 1"
  shows "0.3 + ((h + a) / 2 * 0.4) - (d * 0.2) \<noteq> 0"
    and "1 - (0.3 + ((h + a) / 2 * 0.4) - (d * 0.2)) \<noteq> 0"
proof -
  have "0 < (h + a) / 2 * 0.4" "(h + a) / 2 * 0.4 < 0.4" "0 < d * 0.2" "d * 0.2 < 0.2"
    using assms by simp_all
  then have "0 < 0.3 + ((h + a) / 2 * 0.4) - (d * 0.2)"
       and "0.3 + ((h + a) / 2 * 0.4) - (d * 0.2) < 1"
    by linarith+
  then show "0.3 + ((h + a) / 2 * 0.4) - (d * 0.2) \<noteq> 0"
    and "1 - (0.3 + ((h + a) / 2 * 0.4) - (d * 0.2)) \<noteq> 0"
    by simp_all
qed

lemma totalsBlock_valid:
  assumes "validMatchWin wm"
  shows "\<exists>t. totalsBlock wm tm = Some t"
proof (cases wm)
  case None
  then show ?thesis
    by (cases tm) (simp_all add: totalsBlock_def)
next
  case (Some w)
  then have v: "validWin w"
    using assms by (simp add: validMatchWin_def)
  note p = validWin_pos [OF v]
  note d = drawProbOr034_valid [OF v]
  note o = over25_bounds [OF p(3,7,4,8) d(2,3)]
  show ?thesis
    using p(1,2) o
    by (cases tm) (simp_all add: totalsBlock_def Some d(1) jdiv_Some)
qed

lemma foldl_snd: "foldl (\<lambda>sum s. sum + snd s) z cs = z + sum_list (map snd cs)"
  for z :: real
  by (induction cs arbitrary: z) simp_all

lemma scoreOddsAll_Some:
  assumes "T \<noteq> 0" "\<forall>e \<in> set cs. snd e \<noteq> 0"
  shows "scoreOddsAll T mg cs =
           Some (map (\<lambda>e. \<lparr>score = fst e, odds = (1 / (snd e / T)) * mg\<rparr>) cs)"
  using assms by (induction cs) (auto simp: jdiv_Some)

lemma commonScores_catalogue:
  "commonScores (1 / home w) (1 / away w) (drawImplied034 w)
     = map (\<lambda>e. (fst e, preNormalised w e)) scoreCatalogue"
  by (simp add: commonScores_def scoreCatalogue_def preNormalised_def impliedProbabilityOf_def)

lemma preNormalised_pos:
  assumes "validWin w"
  shows "\<forall>e \<in> set scoreCatalogue. 0 < preNormalised w e"
  using validWin_pos(3,4) [OF assms] drawProbOr034_valid(2) [OF assms]
  by (simp add: scoreCatalogue_def preNormalised_def impliedProbabilityOf_def add_pos_pos)

lemma sum_list_pos_all:
  fixes f :: "'a \<Rightarrow> real"
  assumes "xs \<noteq> []" "\<forall>x \<in> set xs. 0 < f x"
  shows "0 < sum_list (map f xs)"
proof -
  have nn: "0 \<le> sum_list (map f ys)" if "\<forall>x \<in> set ys. 0 < f x" for ys
    using that by (induction ys) (auto intro: add_nonneg_nonneg less_imp_le)
  obtain x ys where xs: "xs = x # ys"
    using assms(1) by (cases xs) auto
  have "0 < f x" "0 \<le> sum_list (map f ys)"
    using assms(2) nn [of ys] by (simp_all add: xs)
  then show ?thesis
    by (simp add: xs add_pos_nonneg)
qed

lemma sum_list_divide_const:
  fixes f :: "'a \<Rightarrow> real"
  shows "sum_list (map (\<lambda>x. f x / t) xs) = sum_list (map f xs) / t"
  by (induction xs) (simp_all add: add_divide_distrib)

lemma scoreCatalogue_total_pos:
  assumes "validWin w"
  shows "0 < sum_list (map (preNormalised w) scoreCatalogue)"
  by (rule sum_list_pos_all [OF _ preNormalised_pos [OF assms]]) (simp add: scoreCatalogue_def)

lemma correctScoreBlock_valid:
  assumes "validWin w"
  shows "correctScoreBlock (Some w) =
     Some (Some \<lparr>scores =
        map (\<lambda>e. \<lparr>score = fst e,
                    odds = (1 / (preNormalised w e
                                  / sum_list (map (preNormalised w) scoreCatalogue))) * 1.1\<rparr>)
          scoreCatalogue\<rparr>)"
proof -
  note p = validWin_pos [OF assms]
  note d = drawProbOr034_valid [OF assms]
  let ?cs = "map (\<lambda>e. (fst e, preNormalised w e)) scoreCatalogue"
  let ?T = "sum_list (map (preNormalised w) scoreCatalogue)"
  have T: "foldl (\<lambda>sum s. sum + snd s) 0 ?cs = ?T"
    by (simp add: foldl_snd comp_def)
  have nz: "\<forall>e \<in> set ?cs. snd e \<noteq> 0"
    using preNormalised_pos [OF assms] by auto
  have Tnz: "?T \<noteq> 0"
    using scoreCatalogue_total_pos [OF assms] by simp
  have so: "scoreOddsAll ?T 1.1 ?cs =
      Some (map (\<lambda>e. \<lparr>score = fst e, odds = (1 / (preNormalised w e / ?T)) * 1.1\<rparr>) scoreCatalogue)"
    by (simp add: scoreOddsAll_Some [OF Tnz nz] comp_def)
  have "correctScoreBlock (Some w) = do {
            os \<leftarrow> scoreOddsAll (foldl (\<lambda>sum s. sum + snd s) 0 ?cs) 1.1 ?cs;
            Some (Some \<lparr>scores = os\<rparr>)
          }"
    unfolding correctScoreBlock_def using p(1,2)
    by (simp add: jdiv_Some d(1) commonScores_catalogue)
  then show ?thesis
    by (simp only: T so Option.bind.simps)
qed

lemma generateMissingMarkets_valid:
  assumes "validMatchWin (h2h m)"
  shows "\<exists>t c. generateMissingMarkets m =
           Some \<lparr>h2h = h2h m, totals = t,
                 bothTeamsToScore =
                   Some \<lparr>yes = (1 / bttsProbability (h2h m)) * 1.05,
                         no = (1 / (1 - bttsProbability (h2h m))) * 1.05\<rparr>,
                 correctScore = c\<rparr> \<and>
           correctScoreBlock (h2h m) = Some c"
proof -
  obtain t where t: "totalsBlock (h2h m) (totals m) = Some t"
    using totalsBlock_valid [OF assms] by blast
  obtain c where c: "correctScoreBlock (h2h m) = Some c"
  proof (cases "h2h m")
    case None
    then show ?thesis
      using that by (simp add: correctScoreBlock_def)
  next
    case (Some w)
    then have "validWin w"
      using assms by (simp add: validMatchWin_def)
    then show ?thesis
      using that correctScoreBlock_valid [of w] Some by simp
  qed
  show ?thesis
    unfolding generateMissingMarkets_blocks [of m]
    by (simp add: bttsBlock_valid [OF assms] t c)
qed

subsection \<open>The renormalisation steps\<close>

lemma winBase_baseDistribution: "winBase w = baseDistribution w"
  unfolding winBase_list baseDistribution_def winTotal_def drawImplied_def Let_def ..

lemma divideAll_length: "divideAll t xs = Some ys \<Longrightarrow> length ys = length xs"
  by (induction xs arbitrary: ys) (auto split: Option.bind_splits)

lemma renormalize_length: "renormalize xs = Some ys \<Longrightarrow> length ys = length xs"
  by (simp add: renormalize_def divideAll_length)

lemma totalsStage_run:
  assumes "over t \<noteq> 0" "under t \<noteq> 0" "1 / over t + 1 / under t \<noteq> 0"
  shows "totalsStage (Some t) sps = renormalize (map (adjustTotals (point t) (normOverOf t)) sps)"
  using assms by (simp add: totalsStage_def jdiv_Some normOverOf_def)

lemma bttsStage_run:
  assumes "yes b \<noteq> 0" "no b \<noteq> 0" "1 / yes b + 1 / no b \<noteq> 0"
  shows "bttsStage (Some b) sps = renormalize (map (adjustBTTS (normYesOf b)) sps)"
  using assms by (simp add: bttsStage_def jdiv_Some normYesOf_def)

lemma totalsStage_length: "totalsStage tm xs = Some ys \<Longrightarrow> length ys = length xs"
  by (cases tm) (auto simp: totalsStage_def dest: renormalize_length split: Option.bind_splits)

lemma oddsToScoreProbabilities_length:
  "oddsToScoreProbabilities ho dr aw = Some base \<Longrightarrow> length base = 18"
  by (auto simp: oddsToScoreProbabilities_def Let_def pushScores_def homeWinScores_conv_def
      drawScores_conv_def awayWinScores_conv_def split: Option.bind_splits)

lemma renormalize_dividedBySum:
  assumes "totalProbability sps \<noteq> 0"
  shows "renormalize sps = Some (dividedBySum sps)" and "totalProbability (dividedBySum sps) = 1"
  using renormalize_Some [OF assms] renormalize_sum [OF assms]
  by (simp_all add: dividedBySum_def)

lemma positive_total: "positive sps \<Longrightarrow> 0 < totalProbability sps"
  by (simp add: totalProbability_sum positive_sum)

lemma positive_dividedBySum:
  assumes "positive sps"
  shows "positive (dividedBySum sps)"
proof -
  have t: "0 < totalProbability sps"
    by (rule positive_total [OF assms])
  have "dividedBySum sps = map (scaleBy (\<lambda>_. 1 / totalProbability sps)) sps"
    by (simp add: dividedBySum_def scaleBy_def)
  then show ?thesis
    using positive_scale [OF assms, of "\<lambda>_. 1 / totalProbability sps"] t by simp
qed

lemma totalsStage_safe:
  assumes "positive sps" "totalProbability sps = 1" "validTotals tm"
  shows "\<exists>mid. totalsStage tm sps = Some mid \<and> positive mid \<and> totalProbability mid = 1 \<and>
           (\<forall>t. tm = Some t \<longrightarrow>
              0 < totalProbability (map (adjustTotals (point t) (normOverOf t)) sps) \<and>
              mid = dividedBySum (map (adjustTotals (point t) (normOverOf t)) sps))"
proof (cases tm)
  case None
  then show ?thesis
    using assms(1,2) by (simp add: totalsStage_def)
next
  case (Some t)
  then have ou: "0 < over t" "0 < under t"
    using assms(3) by (simp_all add: validTotals_def)
  note b = normOverOf_bounds [OF ou]
  let ?adj = "map (adjustTotals (point t) (normOverOf t)) sps"
  have padj: "positive ?adj"
    unfolding adjustTotals_scale
    by (rule positive_scale [OF assms(1)]) (rule totalsFactor_pos [OF b(1,2)])
  have t: "0 < totalProbability ?adj"
    by (rule positive_total [OF padj])
  then have nz: "totalProbability ?adj \<noteq> 0"
    by simp
  have run: "totalsStage tm sps = Some (dividedBySum ?adj)"
    unfolding Some using ou b(3)
    by (simp add: totalsStage_run renormalize_dividedBySum(1) [OF nz])
  show ?thesis
    using run positive_dividedBySum [OF padj] renormalize_dividedBySum(2) [OF nz] t Some
    by simp
qed

lemma bttsStage_safe:
  assumes "positive sps" "totalProbability sps = 1" "validBTTS bm"
  shows "\<exists>res. bttsStage bm sps = Some res \<and> positive res \<and> totalProbability res = 1 \<and>
           (\<forall>b. bm = Some b \<longrightarrow>
              0 < totalProbability (map (adjustBTTS (normYesOf b)) sps) \<and>
              res = dividedBySum (map (adjustBTTS (normYesOf b)) sps))"
proof (cases bm)
  case None
  then show ?thesis
    using assms(1,2) by (simp add: bttsStage_def)
next
  case (Some b)
  then have yn: "0 < yes b" "0 < no b"
    using assms(3) by (simp_all add: validBTTS_def)
  note bd = normYesOf_bounds [OF yn]
  let ?adj = "map (adjustBTTS (normYesOf b)) sps"
  have padj: "positive ?adj"
    unfolding adjustBTTS_scale
    by (rule positive_scale [OF assms(1)]) (rule bttsFactor_pos [OF bd(1,2)])
  have t: "0 < totalProbability ?adj"
    by (rule positive_total [OF padj])
  then have nz: "totalProbability ?adj \<noteq> 0"
    by simp
  have run: "bttsStage bm sps = Some (dividedBySum ?adj)"
    unfolding Some using yn bd(3)
    by (simp add: bttsStage_run renormalize_dividedBySum(1) [OF nz])
  show ?thesis
    using run positive_dividedBySum [OF padj] renormalize_dividedBySum(2) [OF nz] t Some
    by simp
qed

lemma withTotals_as_stage:
  assumes "pt \<noteq> 0" "ov \<noteq> 0" "un \<noteq> 0"
  shows "oddsToScoreProbabilitiesWithTotals ho dr aw (Some pt) (Some ov) (Some un)
      = oddsToScoreProbabilities ho dr aw
          \<bind> totalsStage (Some \<lparr>point = pt, over = ov, under = un\<rparr>)"
  unfolding oddsToScoreProbabilitiesWithTotals_def
  using assms by (simp add: truthy_def variant_block [OF assms(2,3), unfolded Let_def] Let_def
      cong: Option.bind_cong)

lemma base_valid_distribution:
  assumes "validWin w"
  shows "oddsToScoreProbabilities (home w) (draw w) (away w) = Some (baseDistribution w)"
  by (simp only: base_valid [OF assms] winBase_conv [symmetric] winBase_baseDistribution)

lemma normUnderOf_complement:
  assumes "1 / over t + 1 / under t \<noteq> 0"
  shows "normUnderOf t = 1 - normOverOf t"
  unfolding normUnderOf_def normOverOf_def by (rule complement_share [OF assms])


lemma withTotals_as_stage_record:
  assumes "point t \<noteq> 0" "over t \<noteq> 0" "under t \<noteq> 0"
  shows "oddsToScoreProbabilitiesWithTotals ho dr aw (Some (point t)) (Some (over t))
           (Some (under t))
      = oddsToScoreProbabilities ho dr aw \<bind> totalsStage (Some t)"
proof -
  have eq: "\<lparr>point = point t, over = over t, under = under t\<rparr> = t"
    by (cases t) simp
  show ?thesis
    using withTotals_as_stage [OF assms, of ho dr aw] unfolding eq .
qed

lemma adjustTotals_conv_record:
  assumes "1 / over t + 1 / under t \<noteq> 0"
  shows "adjustTotals_conv (point t) (normOverOf t) (normUnderOf t)
           = adjustTotals (point t) (normOverOf t)"
  by (simp only: normUnderOf_complement [OF assms] adjustTotals_conv_eq)

lemma steps_safe:
  assumes "validWin w" "validTotals tm" "validBTTS bm"
  shows "\<exists>mid res.
         oddsToProbabilities \<lparr>h2h = Some w, totals = tm, bothTeamsToScore = None,
                              correctScore = c\<rparr> = Some mid \<and>
         oddsToProbabilities \<lparr>h2h = Some w, totals = tm, bothTeamsToScore = bm,
                              correctScore = c\<rparr> = Some res \<and>
         (\<forall>t. tm = Some t \<longrightarrow>
            0 < totalProbability (map (adjustTotals (point t) (normOverOf t))
                                   (baseDistribution w)) \<and>
            mid = dividedBySum (map (adjustTotals (point t) (normOverOf t))
                                  (baseDistribution w))) \<and>
         (\<forall>b. bm = Some b \<longrightarrow>
            0 < totalProbability (map (adjustBTTS (normYesOf b)) mid) \<and>
            res = dividedBySum (map (adjustBTTS (normYesOf b)) mid)) \<and>
         totalProbability mid = 1 \<and> totalProbability res = 1"
proof -
  have pos: "positive (baseDistribution w)"
    using winBase_positive [OF assms(1)] by (simp only: winBase_baseDistribution)
  have one: "totalProbability (baseDistribution w) = 1"
    using winBase_sum [OF assms(1)] by (simp only: totalProbability_sum winBase_baseDistribution)
  obtain mid where mid: "totalsStage tm (baseDistribution w) = Some mid" "positive mid"
      "totalProbability mid = 1"
      "\<forall>t. tm = Some t \<longrightarrow>
            0 < totalProbability (map (adjustTotals (point t) (normOverOf t))
                                   (baseDistribution w)) \<and>
            mid = dividedBySum (map (adjustTotals (point t) (normOverOf t))
                                  (baseDistribution w))"
    using totalsStage_safe [OF pos one assms(2)] by blast
  obtain res where res: "bttsStage bm mid = Some res" "totalProbability res = 1"
      "\<forall>b. bm = Some b \<longrightarrow>
            0 < totalProbability (map (adjustBTTS (normYesOf b)) mid) \<and>
            res = dividedBySum (map (adjustBTTS (normYesOf b)) mid)"
    using bttsStage_safe [OF mid(2,3) assms(3)] by blast
  have r1: "oddsToProbabilities \<lparr>h2h = Some w, totals = tm, bothTeamsToScore = None,
                              correctScore = c\<rparr> = Some mid"
    by (simp add: oddsToProbabilities_stages [OF _ assms(1)] winBase_baseDistribution mid(1)
        bttsStage_def)
  have r2: "oddsToProbabilities \<lparr>h2h = Some w, totals = tm, bothTeamsToScore = bm,
                              correctScore = c\<rparr> = Some res"
    by (simp add: oddsToProbabilities_stages [OF _ assms(1)] winBase_baseDistribution mid(1)
        res(1))
  show ?thesis
    using r1 r2 mid(3,4) res(2,3) by (intro exI [of _ mid] exI [of _ res] conjI)
qed

lemma variant_safe:
  assumes "validWin w" "point t \<noteq> 0" "0 < over t" "0 < under t"
  shows "\<exists>res.
         oddsToScoreProbabilitiesWithTotals (home w) (draw w) (away w) (Some (point t))
           (Some (over t)) (Some (under t)) = Some res \<and>
         0 < totalProbability (map (adjustTotals_conv (point t) (normOverOf t) (normUnderOf t))
                                (baseDistribution w)) \<and>
         res = dividedBySum (map (adjustTotals_conv (point t) (normOverOf t) (normUnderOf t))
                               (baseDistribution w)) \<and>
         totalProbability res = 1"
proof -
  have pos: "positive (baseDistribution w)"
    using winBase_positive [OF assms(1)] by (simp only: winBase_baseDistribution)
  have one: "totalProbability (baseDistribution w) = 1"
    using winBase_sum [OF assms(1)] by (simp only: totalProbability_sum winBase_baseDistribution)
  have vt: "validTotals (Some t)"
    using assms(3,4) by (simp add: validTotals_def)
  note b = normOverOf_bounds [OF assms(3,4)]
  obtain mid where mid: "totalsStage (Some t) (baseDistribution w) = Some mid"
      "totalProbability mid = 1"
      "0 < totalProbability (map (adjustTotals (point t) (normOverOf t)) (baseDistribution w))"
      "mid = dividedBySum (map (adjustTotals (point t) (normOverOf t)) (baseDistribution w))"
    using totalsStage_safe [OF pos one vt] by blast
  have run: "oddsToScoreProbabilitiesWithTotals (home w) (draw w) (away w) (Some (point t))
           (Some (over t)) (Some (under t)) = Some mid"
    using assms(2,3,4)
    by (simp add: withTotals_as_stage_record base_valid_distribution [OF assms(1)] mid(1))
  show ?thesis
    using run mid(2,3,4) by (simp only: adjustTotals_conv_record [OF b(3)]) simp
qed

lemma totals_step_unguarded:
  assumes "oddsToProbabilities \<lparr>h2h = Some w, totals = None, bothTeamsToScore = None,
                                correctScore = c\<rparr> = Some base"
    and "over t \<noteq> 0" "under t \<noteq> 0" "1 / over t + 1 / under t \<noteq> 0"
    and "totalProbability (map (adjustTotals (point t) (normOverOf t)) base) = 0"
  shows "oddsToProbabilities \<lparr>h2h = Some w, totals = Some t, bothTeamsToScore = bm,
                               correctScore = c\<rparr> = None"
proof -
  have b: "oddsToScoreProbabilities (home w) (draw w) (away w) = Some base"
    using assms(1) by (simp add: oddsToProbabilities_general [of _ w] totalsStage_fun bttsStage_fun)
  then have "base \<noteq> []"
    using oddsToScoreProbabilities_length by fastforce
  then have "renormalize (map (adjustTotals (point t) (normOverOf t)) base) = None"
    using assms(5) by (intro renormalize_zero) simp_all
  then show ?thesis
    by (simp add: oddsToProbabilities_general [of _ w] b totalsStage_run [OF assms(2,3,4)])
qed

lemma btts_step_unguarded:
  assumes "oddsToProbabilities \<lparr>h2h = Some w, totals = tm, bothTeamsToScore = None,
                                correctScore = c\<rparr> = Some mid"
    and "yes b \<noteq> 0" "no b \<noteq> 0" "1 / yes b + 1 / no b \<noteq> 0"
    and "totalProbability (map (adjustBTTS (normYesOf b)) mid) = 0"
  shows "oddsToProbabilities \<lparr>h2h = Some w, totals = tm, bothTeamsToScore = Some b,
                               correctScore = c\<rparr> = None"
proof -
  have m: "oddsToScoreProbabilities (home w) (draw w) (away w) \<bind> totalsStage tm = Some mid"
    using assms(1) by (simp add: oddsToProbabilities_general [of _ w] bttsStage_fun)
  then obtain base where "oddsToScoreProbabilities (home w) (draw w) (away w) = Some base"
      "totalsStage tm base = Some mid"
    by (auto split: Option.bind_splits)
  then have "length mid = 18"
    using oddsToScoreProbabilities_length totalsStage_length by fastforce
  then have "mid \<noteq> []"
    by auto
  then have "renormalize (map (adjustBTTS (normYesOf b)) mid) = None"
    using assms(5) by (intro renormalize_zero) simp_all
  then show ?thesis
    by (simp add: oddsToProbabilities_general [of _ w] m bttsStage_run [OF assms(2,3,4)])
qed

lemma variant_step_unguarded:
  assumes "oddsToScoreProbabilities ho dr aw = Some base"
    and "point t \<noteq> 0" "over t \<noteq> 0" "under t \<noteq> 0" "1 / over t + 1 / under t \<noteq> 0"
    and "totalProbability (map (adjustTotals_conv (point t) (normOverOf t) (normUnderOf t)) base)
           = 0"
  shows "oddsToScoreProbabilitiesWithTotals ho dr aw (Some (point t)) (Some (over t))
           (Some (under t)) = None"
proof -
  have "base \<noteq> []"
    using assms(1) oddsToScoreProbabilities_length by fastforce
  then have "renormalize (map (adjustTotals (point t) (normOverOf t)) base) = None"
    using assms(6) by (intro renormalize_zero) (simp_all add: adjustTotals_conv_record [OF assms(5)])
  then show ?thesis
    by (simp add: withTotals_as_stage_record [OF assms(2,3,4)] assms(1)
        totalsStage_run [OF assms(3,4,5)])
qed

lemmas run_defs = oddsToScoreProbabilitiesWithTotals_def oddsToScoreProbabilities_def
  oddsToProbabilities_def jdiv_def truthy_def pushScores_def
  homeWinScores_conv_def drawScores_conv_def awayWinScores_conv_def
  homeWinScores_def drawScores_def awayWinScores_def
  adjustTotals_conv_def adjustTotals_def adjustBTTS_def renormalize_def totalProbability_def

subsection \<open>Evaluation in double arithmetic\<close>

text \<open>
  The congruence rules \<open>by_value\<close> make the simplifier evaluate an argument before it
  enters the function's body, as the program does.
\<close>

lemmas double_defs = fl_def flpos_def scale53.simps roundEven_def pow2_def dadd_def dsub_def
  dmul_def ddiv_def totalProbability_d_def renormalize_d_def pushScores_d_def truthy_def

text \<open>Three decimal literals and the doubles they denote.\<close>

lemma fl_literals:
  "fl (1 / 10) = 3602879701896397 / 2 ^ 55"
  "fl (35 / 100) = 3152519739159347 / 2 ^ 53"
  "fl (9 / 5) = 8106479329266893 / 2 ^ 52"
  by (simp_all add: double_defs)







section \<open>Properties\<close>

text \<open>
  C1. For a well-formed win market with no totals and no both-teams-to-score market,
  \<open>oddsToProbabilities\<close> returns 18 entries: the seven home-win scorelines, the four
  draws and the seven away-win scorelines, each with its class's normalised implied
  probability times the catalogue weight, and the probabilities sum to 1.
\<close>

theorem oddsToProbabilities_win_only:
  assumes "h2h m = Some w" and "totals m = None" and "bothTeamsToScore m = None"
    and "validWin w"
  shows "\<exists>sps. oddsToProbabilities m = Some sps \<and> length sps = 18 \<and>
     sps =
       (let homeProb = 1 / home w;
            drawProb = (case draw w of None \<Rightarrow> 0 | Some d \<Rightarrow> 1 / d);
            awayProb = 1 / away w;
            total = homeProb + drawProb + awayProb;
            nH = homeProb / total; nD = drawProb / total; nA = awayProb / total in
        [\<lparr>home_score = 1, away_score = 0, probability = nH * 0.35\<rparr>,
         \<lparr>home_score = 2, away_score = 0, probability = nH * 0.20\<rparr>,
         \<lparr>home_score = 2, away_score = 1, probability = nH * 0.18\<rparr>,
         \<lparr>home_score = 3, away_score = 0, probability = nH * 0.10\<rparr>,
         \<lparr>home_score = 3, away_score = 1, probability = nH * 0.10\<rparr>,
         \<lparr>home_score = 4, away_score = 0, probability = nH * 0.04\<rparr>,
         \<lparr>home_score = 3, away_score = 2, probability = nH * 0.03\<rparr>,
         \<lparr>home_score = 0, away_score = 0, probability = nD * 0.30\<rparr>,
         \<lparr>home_score = 1, away_score = 1, probability = nD * 0.40\<rparr>,
         \<lparr>home_score = 2, away_score = 2, probability = nD * 0.20\<rparr>,
         \<lparr>home_score = 3, away_score = 3, probability = nD * 0.10\<rparr>,
         \<lparr>home_score = 0, away_score = 1, probability = nA * 0.35\<rparr>,
         \<lparr>home_score = 0, away_score = 2, probability = nA * 0.20\<rparr>,
         \<lparr>home_score = 1, away_score = 2, probability = nA * 0.18\<rparr>,
         \<lparr>home_score = 0, away_score = 3, probability = nA * 0.10\<rparr>,
         \<lparr>home_score = 1, away_score = 3, probability = nA * 0.10\<rparr>,
         \<lparr>home_score = 0, away_score = 4, probability = nA * 0.04\<rparr>,
         \<lparr>home_score = 2, away_score = 3, probability = nA * 0.03\<rparr>]) \<and>
     sum_list (map probability sps) = 1"
proof -
  have run: "oddsToProbabilities m = Some (winBase w)"
    by (simp add: oddsToProbabilities_stages [OF assms(1,4)] assms(2,3) totalsStage_def
        bttsStage_def)
  have len: "length (winBase w) = 18"
    by (simp add: winBase_list Let_def)
  have lst: "winBase w = (let homeProb = 1 / home w;
            drawProb = (case draw w of None \<Rightarrow> 0 | Some d \<Rightarrow> 1 / d);
            awayProb = 1 / away w;
            total = homeProb + drawProb + awayProb;
            nH = homeProb / total; nD = drawProb / total; nA = awayProb / total in
        [\<lparr>home_score = 1, away_score = 0, probability = nH * 0.35\<rparr>,
         \<lparr>home_score = 2, away_score = 0, probability = nH * 0.20\<rparr>,
         \<lparr>home_score = 2, away_score = 1, probability = nH * 0.18\<rparr>,
         \<lparr>home_score = 3, away_score = 0, probability = nH * 0.10\<rparr>,
         \<lparr>home_score = 3, away_score = 1, probability = nH * 0.10\<rparr>,
         \<lparr>home_score = 4, away_score = 0, probability = nH * 0.04\<rparr>,
         \<lparr>home_score = 3, away_score = 2, probability = nH * 0.03\<rparr>,
         \<lparr>home_score = 0, away_score = 0, probability = nD * 0.30\<rparr>,
         \<lparr>home_score = 1, away_score = 1, probability = nD * 0.40\<rparr>,
         \<lparr>home_score = 2, away_score = 2, probability = nD * 0.20\<rparr>,
         \<lparr>home_score = 3, away_score = 3, probability = nD * 0.10\<rparr>,
         \<lparr>home_score = 0, away_score = 1, probability = nA * 0.35\<rparr>,
         \<lparr>home_score = 0, away_score = 2, probability = nA * 0.20\<rparr>,
         \<lparr>home_score = 1, away_score = 2, probability = nA * 0.18\<rparr>,
         \<lparr>home_score = 0, away_score = 3, probability = nA * 0.10\<rparr>,
         \<lparr>home_score = 1, away_score = 3, probability = nA * 0.10\<rparr>,
         \<lparr>home_score = 0, away_score = 4, probability = nA * 0.04\<rparr>,
         \<lparr>home_score = 2, away_score = 3, probability = nA * 0.03\<rparr>])"
    unfolding winBase_list winTotal_def drawImplied_def Let_def ..
  show ?thesis
    using run len lst winBase_sum [OF assms(4)] by simp
qed

theorem oddsToProbabilities_win_only_witness:
  "validWin \<lparr>home = 2, draw = Some 3, away = 4\<rparr> \<and>
   (\<exists>sps. oddsToProbabilities
            \<lparr>h2h = Some \<lparr>home = 2, draw = Some 3, away = 4\<rparr>, totals = None,
             bothTeamsToScore = None, correctScore = None\<rparr> = Some sps \<and>
          length sps = 18 \<and> probability (hd sps) = 21 / 130 \<and>
          sum_list (map probability sps) = 1)"
proof -
  have v: "validWin \<lparr>home = 2, draw = Some 3, away = 4\<rparr>"
    by (simp add: validWin_def)
  from oddsToProbabilities_win_only
    [of "\<lparr>h2h = Some \<lparr>home = 2, draw = Some 3, away = 4\<rparr>, totals = None,
             bothTeamsToScore = None, correctScore = None\<rparr>"
        "\<lparr>home = 2, draw = Some 3, away = 4\<rparr>", OF _ _ _ v]
  obtain sps where
    "oddsToProbabilities
            \<lparr>h2h = Some \<lparr>home = 2, draw = Some 3, away = 4\<rparr>, totals = None,
             bothTeamsToScore = None, correctScore = None\<rparr> = Some sps"
    "length sps = 18" "probability (hd sps) = 21 / 130" "sum_list (map probability sps) = 1"
    by (auto simp: Let_def)
  with v show ?thesis by blast
qed

text \<open>
  C2. With a totals market present, every entry of the base distribution (the 18 entries
  of \<open>baseDistribution\<close>, from the win market alone) has its probability multiplied by
  \<open>0.5 + 0.5 * normOver\<close> when its total goals exceed the point, by
  \<open>0.5 + 0.5 * (1 - normOver)\<close> when they are below it, and by 1 when they equal it
  (\<open>totalsFactor\<close>); the list is then divided by its sum, and the result \<open>res\<close> sums
  to 1. Without a both-teams-to-score market \<open>res\<close> is what the function returns; with
  one, the function goes on from \<open>res\<close> with that market's step.
\<close>

theorem oddsToProbabilities_totals:
  assumes "validWin w" and "0 < over t" and "0 < under t"
  shows "\<exists>res.
     oddsToProbabilities \<lparr>h2h = Some w, totals = Some t, bothTeamsToScore = None,
                          correctScore = c\<rparr> = Some res \<and>
     res = map (\<lambda>sp. sp\<lparr>probability :=
                  probability sp * totalsFactor (point t) (normOverOf t) sp
                  / sum_list (map (\<lambda>x. probability x * totalsFactor (point t) (normOverOf t) x)
                       (baseDistribution w))\<rparr>) (baseDistribution w) \<and>
     sum_list (map probability res) = 1 \<and>
     (\<forall>b. oddsToProbabilities \<lparr>h2h = Some w, totals = Some t, bothTeamsToScore = Some b,
                               correctScore = c\<rparr> = bttsStage (Some b) res)"
proof -
  let ?c = "totalsFactor (point t) (normOverOf t)"
  let ?S = "sum_list (map (\<lambda>x. probability x * ?c x) (winBase w))"
  let ?res = "map (scaleBy (\<lambda>sp. ?c sp / ?S)) (winBase w)"
  note b = normOverOf_bounds [OF assms(2,3)]
  have pos: "positive (winBase w)"
    by (rule winBase_positive [OF assms(1)])
  have c: "\<And>sp. 0 < ?c sp"
    by (rule totalsFactor_pos [OF b(1,2)])
  have res: "oddsToProbabilities \<lparr>h2h = Some w, totals = Some t, bothTeamsToScore = None,
                          correctScore = c\<rparr> = Some ?res"
    by (simp add: oddsToProbabilities_stages [OF _ assms(1)] totalsStage_valid [OF pos assms(2,3)]
        bttsStage_def)
  have shape: "?res = map (\<lambda>sp. sp\<lparr>probability := probability sp * ?c sp
                      / sum_list (map (\<lambda>x. probability x * ?c x) (baseDistribution w))\<rparr>)
                    (baseDistribution w)"
    by (simp add: scaleBy_def winBase_baseDistribution)
  have one: "sum_list (map probability ?res) = 1"
    by (rule renormalize_scale(3) [OF pos c])
  have more: "\<forall>b. oddsToProbabilities \<lparr>h2h = Some w, totals = Some t, bothTeamsToScore = Some b,
                               correctScore = c\<rparr> = bttsStage (Some b) ?res"
    by (simp add: oddsToProbabilities_stages [OF _ assms(1)] totalsStage_valid [OF pos assms(2,3)])
  show ?thesis
    using res shape one more by (intro exI [of _ ?res] conjI)
qed

theorem oddsToProbabilities_totals_witness:
  "validWin \<lparr>home = 2, draw = Some 3, away = 4\<rparr> \<and>
   map_option (map probability)
     (oddsToProbabilities
        \<lparr>h2h = Some \<lparr>home = 2, draw = Some 3, away = 4\<rparr>,
         totals = Some \<lparr>point = 5 / 2, over = 9 / 5, under = 2\<rparr>,
         bothTeamsToScore = None, correctScore = None\<rparr>)
     = Some [168 / 1055, 96 / 1055, 3132 / 36925, 348 / 7385, 348 / 7385, 696 / 36925,
             522 / 36925, 96 / 1055, 128 / 1055, 464 / 7385, 232 / 7385, 84 / 1055,
             48 / 1055, 1566 / 36925, 174 / 7385, 174 / 7385, 348 / 36925, 261 / 36925]"
proof -
  have v: "validWin \<lparr>home = 2, draw = Some 3, away = 4\<rparr>"
    by (simp add: validWin_def)
  from oddsToProbabilities_totals
    [of "\<lparr>home = 2, draw = Some 3, away = 4\<rparr>" "\<lparr>point = 5 / 2, over = 9 / 5, under = 2\<rparr>" None,
      OF v]
  obtain res where
    run: "oddsToProbabilities
        \<lparr>h2h = Some \<lparr>home = 2, draw = Some 3, away = 4\<rparr>,
         totals = Some \<lparr>point = 5 / 2, over = 9 / 5, under = 2\<rparr>,
         bothTeamsToScore = None, correctScore = None\<rparr> = Some res" and
    res: "res = map (\<lambda>sp. sp\<lparr>probability :=
                  probability sp * totalsFactor (5 / 2) (normOverOf \<lparr>point = 5 / 2, over = 9 / 5, under = 2\<rparr>) sp
                  / sum_list (map (\<lambda>x. probability x * totalsFactor (5 / 2) (normOverOf \<lparr>point = 5 / 2, over = 9 / 5, under = 2\<rparr>) x)
                       (baseDistribution \<lparr>home = 2, draw = Some 3, away = 4\<rparr>))\<rparr>)
               (baseDistribution \<lparr>home = 2, draw = Some 3, away = 4\<rparr>)"
    by auto
  have "map probability res
     = [168 / 1055, 96 / 1055, 3132 / 36925, 348 / 7385, 348 / 7385, 696 / 36925,
             522 / 36925, 96 / 1055, 128 / 1055, 464 / 7385, 232 / 7385, 84 / 1055,
             48 / 1055, 1566 / 36925, 174 / 7385, 174 / 7385, 348 / 36925, 261 / 36925]"
    unfolding res by (simp add: baseDistribution_def totalsFactor_def normOverOf_def Let_def)
  then show ?thesis
    using v run by simp
qed

text \<open>
  C3. A \<open>MatchMarkets\<close> without a win market gives the empty list, whatever the other
  markets hold.
\<close>

theorem oddsToProbabilities_no_h2h:
  "oddsToProbabilities \<lparr>h2h = None, totals = t, bothTeamsToScore = b, correctScore = c\<rparr> = Some []"
  by (simp add: oddsToProbabilities_def)

text \<open>
  C4. Feeding the output of \<open>generateMissingMarkets\<close> back in gives the same output:
  the win market and the totals market (given or synthesised) are kept, and the
  both-teams-to-score and correct-score markets are computed again from the same win
  market. For a well-formed win market, or none, the first call does return a result.
\<close>

theorem generateMissingMarkets_idempotent:
  "(validMatchWin (h2h m) \<longrightarrow> (\<exists>r. generateMissingMarkets m = Some r)) \<and>
   (\<forall>r. generateMissingMarkets m = Some r \<longrightarrow> generateMissingMarkets r = Some r)"
proof (intro conjI allI impI)
  fix r
  assume run: "generateMissingMarkets m = Some r"
  then obtain b t c where
    b: "bttsBlock (h2h m) = Some b" and
    t: "totalsBlock (h2h m) (totals m) = Some t" and
    c: "correctScoreBlock (h2h m) = Some c" and
    r: "r = \<lparr>h2h = h2h m, totals = t, bothTeamsToScore = Some b, correctScore = c\<rparr>"
    unfolding generateMissingMarkets_blocks [of m]
    by (auto split: Option.bind_splits)
  have "generateMissingMarkets r =
          Some \<lparr>h2h = h2h m, totals = t, bothTeamsToScore = Some b, correctScore = c\<rparr>"
    unfolding generateMissingMarkets_blocks [of r]
    by (simp add: r b c totalsBlock_fix [OF t])
  then show "generateMissingMarkets r = Some r"
    by (simp only: r)
next
  assume "validMatchWin (h2h m)"
  then show "\<exists>r. generateMissingMarkets m = Some r"
    using generateMissingMarkets_valid [of m] by blast
qed

theorem generateMissingMarkets_idempotent_witness:
  "validMatchWin (Some \<lparr>home = 2, draw = Some 3, away = 4\<rparr>) \<and>
   (let r = \<lparr>h2h = Some \<lparr>home = 2, draw = Some 3, away = 4\<rparr>,
          totals = Some \<lparr>point = 5 / 2, over = 63 / 23, under = 63 / 37\<rparr>,
          bothTeamsToScore = Some \<lparr>yes = 42 / 25, no = 14 / 5\<rparr>,
          correctScore =
            Some \<lparr>scores =
              [\<lparr>score = ''0-0'', odds = 10109 / 800\<rparr>,
               \<lparr>score = ''1-0'', odds = 10109 / 900\<rparr>,
               \<lparr>score = ''0-1'', odds = 10109 / 450\<rparr>,
               \<lparr>score = ''1-1'', odds = 10109 / 1200\<rparr>,
               \<lparr>score = ''2-0'', odds = 10109 / 720\<rparr>,
               \<lparr>score = ''0-2'', odds = 10109 / 360\<rparr>,
               \<lparr>score = ''2-1'', odds = 10109 / 1080\<rparr>,
               \<lparr>score = ''1-2'', odds = 10109 / 540\<rparr>,
               \<lparr>score = ''2-2'', odds = 10109 / 800\<rparr>,
               \<lparr>score = ''3-0'', odds = 10109 / 480\<rparr>,
               \<lparr>score = ''0-3'', odds = 10109 / 240\<rparr>,
               \<lparr>score = ''3-1'', odds = 10109 / 600\<rparr>,
               \<lparr>score = ''1-3'', odds = 10109 / 300\<rparr>,
               \<lparr>score = ''3-2'', odds = 10109 / 450\<rparr>,
               \<lparr>score = ''4-0'', odds = 10109 / 180\<rparr>,
               \<lparr>score = ''0-4'', odds = 10109 / 90\<rparr>]\<rparr>\<rparr>
    in generateMissingMarkets
         \<lparr>h2h = Some \<lparr>home = 2, draw = Some 3, away = 4\<rparr>, totals = None\<rparr> = Some r \<and>
       generateMissingMarkets r = Some r)"
proof -
  let ?m = "\<lparr>h2h = Some \<lparr>home = 2, draw = Some 3, away = 4\<rparr>, totals = None\<rparr>"
  let ?r = "\<lparr>h2h = Some \<lparr>home = 2, draw = Some 3, away = 4\<rparr>,
          totals = Some \<lparr>point = 5 / 2, over = 63 / 23, under = 63 / 37\<rparr>,
          bothTeamsToScore = Some \<lparr>yes = 42 / 25, no = 14 / 5\<rparr>,
          correctScore =
            Some \<lparr>scores =
              [\<lparr>score = ''0-0'', odds = 10109 / 800\<rparr>,
               \<lparr>score = ''1-0'', odds = 10109 / 900\<rparr>,
               \<lparr>score = ''0-1'', odds = 10109 / 450\<rparr>,
               \<lparr>score = ''1-1'', odds = 10109 / 1200\<rparr>,
               \<lparr>score = ''2-0'', odds = 10109 / 720\<rparr>,
               \<lparr>score = ''0-2'', odds = 10109 / 360\<rparr>,
               \<lparr>score = ''2-1'', odds = 10109 / 1080\<rparr>,
               \<lparr>score = ''1-2'', odds = 10109 / 540\<rparr>,
               \<lparr>score = ''2-2'', odds = 10109 / 800\<rparr>,
               \<lparr>score = ''3-0'', odds = 10109 / 480\<rparr>,
               \<lparr>score = ''0-3'', odds = 10109 / 240\<rparr>,
               \<lparr>score = ''3-1'', odds = 10109 / 600\<rparr>,
               \<lparr>score = ''1-3'', odds = 10109 / 300\<rparr>,
               \<lparr>score = ''3-2'', odds = 10109 / 450\<rparr>,
               \<lparr>score = ''4-0'', odds = 10109 / 180\<rparr>,
               \<lparr>score = ''0-4'', odds = 10109 / 90\<rparr>]\<rparr>\<rparr>"
  have v: "validMatchWin (Some \<lparr>home = 2, draw = Some 3, away = 4\<rparr>)"
    by (simp add: validMatchWin_def validWin_def)
  have first: "generateMissingMarkets ?m = Some ?r"
    by (simp add: generateMissingMarkets_def jdiv_def truthy_def drawProbOr034_def
        commonScores_def Let_def)
  have again: "generateMissingMarkets ?r = Some ?r"
    using generateMissingMarkets_idempotent [of ?m] first by blast
  show ?thesis
    unfolding Let_def using v first again by (intro conjI)
qed

text \<open>
  C5. A totals market with equal over and under odds (\<open>normOver = 0.5\<close>) leaves the
  distribution as it was, provided that no catalogued scoreline has exactly the point as
  its total goals, that is, the point is none of 0, 1, ..., 6. (An entry whose total equals
  the point keeps its probability while all others are multiplied by 0.75, so for such a
  point the renormalised distribution differs.)
\<close>

theorem neutral_totals_off_catalogue:
  assumes "validWin w" and "over t = under t" and "0 < over t"
    and "point t \<notin> {0, 1, 2, 3, 4, 5, 6}"
  shows "\<exists>base.
     oddsToProbabilities \<lparr>h2h = Some w, totals = None, bothTeamsToScore = None,
                          correctScore = c\<rparr> = Some base \<and>
     oddsToProbabilities \<lparr>h2h = Some w, totals = Some t, bothTeamsToScore = None,
                          correctScore = c\<rparr> = Some base"
proof -
  let ?c = "totalsFactor (point t) (normOverOf t)"
  let ?S = "sum_list (map (\<lambda>x. probability x * ?c x) (winBase w))"
  have un: "0 < under t"
    using assms(2,3) by simp
  have pos: "positive (winBase w)"
    by (rule winBase_positive [OF assms(1)])
  have cf: "?c sp = 3 / 4" if "sp \<in> set (winBase w)" for sp
  proof -
    have "real (home_score sp + away_score sp) \<noteq> point t"
      using winBase_goals [of w] that assms(4) by auto
    then have "totalsFactor (point t) (1 / 2) sp = 3 / 4"
      by (rule neutral_factor)
    then show ?thesis
      by (simp only: normOverOf_neutral [OF assms(2,3)])
  qed
  have "?S = sum_list (map (\<lambda>x. probability x * (3 / 4)) (winBase w))"
    by (rule arg_cong [where f = sum_list], rule map_cong) (simp_all add: cf)
  also have "\<dots> = sum_list (map probability (winBase w)) * (3 / 4)"
    by (simp only: sum_list_mult_const)
  finally have S: "?S = 3 / 4"
    by (simp add: winBase_sum [OF assms(1)])
  have same: "map (scaleBy (\<lambda>sp. ?c sp / ?S)) (winBase w) = winBase w"
    by (rule map_idI) (simp add: scaleBy_def cf S)
  have base: "oddsToProbabilities \<lparr>h2h = Some w, totals = None, bothTeamsToScore = None,
                          correctScore = c\<rparr> = Some (winBase w)"
    by (simp add: oddsToProbabilities_stages [OF _ assms(1)] totalsStage_def bttsStage_def)
  have res: "oddsToProbabilities \<lparr>h2h = Some w, totals = Some t, bothTeamsToScore = None,
                          correctScore = c\<rparr> = Some (winBase w)"
    by (simp add: oddsToProbabilities_stages [OF _ assms(1)]
        totalsStage_valid [OF pos assms(3) un] same bttsStage_def)
  show ?thesis
    using base res by blast
qed

theorem neutral_totals_off_catalogue_witness:
  "validWin \<lparr>home = 2, draw = Some 3, away = 4\<rparr> \<and>
   (\<exists>base.
     oddsToProbabilities \<lparr>h2h = Some \<lparr>home = 2, draw = Some 3, away = 4\<rparr>, totals = None,
                          bothTeamsToScore = None, correctScore = None\<rparr> = Some base \<and>
     oddsToProbabilities \<lparr>h2h = Some \<lparr>home = 2, draw = Some 3, away = 4\<rparr>,
                          totals = Some \<lparr>point = 5 / 2, over = 2, under = 2\<rparr>,
                          bothTeamsToScore = None, correctScore = None\<rparr> = Some base)"
proof -
  have v: "validWin \<lparr>home = 2, draw = Some 3, away = 4\<rparr>"
    by (simp add: validWin_def)
  from neutral_totals_off_catalogue
    [of "\<lparr>home = 2, draw = Some 3, away = 4\<rparr>" "\<lparr>point = 5 / 2, over = 2, under = 2\<rparr>" None,
      OF v]
  show ?thesis
    using v by simp
qed

text \<open>
  Home 2, draw 3, away 4 with a totals market at point 3 and odds 2 and 2: the entries
  2-1, 3-0, 1-2 and 0-3 keep their weight, and the distribution changes.
\<close>

theorem neutral_totals_counterexample:
  "map_option (map probability)
     (oddsToProbabilities
        \<lparr>h2h = Some \<lparr>home = 2, draw = Some 3, away = 4\<rparr>,
         totals = Some \<lparr>point = 3, over = 2, under = 2\<rparr>,
         bothTeamsToScore = None, correctScore = None\<rparr>)
   = Some [105 / 692, 15 / 173, 18 / 173, 10 / 173, 15 / 346, 3 / 173, 9 / 692,
           15 / 173, 20 / 173, 10 / 173, 5 / 173, 105 / 1384, 15 / 346, 9 / 173,
           5 / 173, 15 / 692, 3 / 346, 9 / 1384] \<and>
   map_option (map probability)
     (oddsToProbabilities
        \<lparr>h2h = Some \<lparr>home = 2, draw = Some 3, away = 4\<rparr>, totals = None,
         bothTeamsToScore = None, correctScore = None\<rparr>)
   = Some [21 / 130, 6 / 65, 27 / 325, 3 / 65, 3 / 65, 6 / 325, 9 / 650,
           6 / 65, 8 / 65, 4 / 65, 2 / 65, 21 / 260, 3 / 65, 27 / 650,
           3 / 130, 3 / 130, 3 / 325, 9 / 1300]"
  by (simp add: oddsToProbabilities_def jdiv_def truthy_def pushScores_def homeWinScores_def
      drawScores_def awayWinScores_def adjustTotals_def renormalize_def totalProbability_def)

text \<open>
  C6. The synthesised both-teams-to-score market: with \<open>bttsProbability\<close> computed from
  the implied probabilities \<open>1 / home\<close> and \<open>1 / away\<close> (0.33 each without a win market)
  as \<open>0.4 + 0.3 * balance + 0.2 * avgWinProb\<close>, the odds are \<open>(1 / p) * 1.05\<close> for yes
  and \<open>(1 / (1 - p)) * 1.05\<close> for no.
\<close>

theorem generateMissingMarkets_btts:
  assumes "validMatchWin (h2h m)"
  shows "\<exists>r. generateMissingMarkets m = Some r \<and>
     bothTeamsToScore r =
       Some \<lparr>yes = (1 / bttsProbability (h2h m)) * 1.05,
             no = (1 / (1 - bttsProbability (h2h m))) * 1.05\<rparr>"
proof -
  obtain t c where "generateMissingMarkets m =
           Some \<lparr>h2h = h2h m, totals = t,
                 bothTeamsToScore =
                   Some \<lparr>yes = (1 / bttsProbability (h2h m)) * 1.05,
                         no = (1 / (1 - bttsProbability (h2h m))) * 1.05\<rparr>,
                 correctScore = c\<rparr>"
    using generateMissingMarkets_valid [OF assms] by blast
  then show ?thesis
    by simp
qed

theorem generateMissingMarkets_btts_witness:
  "validMatchWin (Some \<lparr>home = 9 / 5, draw = Some (17 / 5), away = 9 / 2\<rparr>) \<and>
   bttsProbability (Some \<lparr>home = 9 / 5, draw = Some (17 / 5), away = 9 / 2\<rparr>) = 269 / 450 \<and>
   (\<exists>r. generateMissingMarkets
           \<lparr>h2h = Some \<lparr>home = 9 / 5, draw = Some (17 / 5), away = 9 / 2\<rparr>, totals = None\<rparr>
          = Some r \<and>
        bothTeamsToScore r = Some \<lparr>yes = 945 / 538, no = 945 / 362\<rparr>)"
proof -
  have v: "validMatchWin (Some \<lparr>home = 9 / 5, draw = Some (17 / 5), away = 9 / 2\<rparr>)"
    by (simp add: validMatchWin_def validWin_def)
  have p: "bttsProbability (Some \<lparr>home = 9 / 5, draw = Some (17 / 5), away = 9 / 2\<rparr>) = 269 / 450"
    by (simp add: bttsProbability_def)
  show ?thesis
    using generateMissingMarkets_btts
            [of "\<lparr>h2h = Some \<lparr>home = 9 / 5, draw = Some (17 / 5), away = 9 / 2\<rparr>, totals = None\<rparr>"]
          v p
    by simp
qed

text \<open>
  C7. Correct-score synthesis for a well-formed win market: fifteen of the sixteen
  scorelines get one implied probability (home, away, or draw, the draw being 0.34
  without draw odds) times a fixed weight, and 3-2 gets the sum of the home and the away
  implied probability times 0.05 (\<open>scoreCatalogue\<close>); each value is divided by the sum
  of the sixteen, so that the shares sum to 1, and the odds are \<open>(1 / share) * 1.1\<close>.
\<close>

theorem generateMissingMarkets_correctScore:
  assumes "h2h m = Some w" and "validWin w"
  shows "\<exists>r. generateMissingMarkets m = Some r \<and>
     correctScore r =
       Some \<lparr>scores =
          map (\<lambda>e. \<lparr>score = fst e,
                     odds = (1 / (preNormalised w e
                                   / sum_list (map (preNormalised w) scoreCatalogue))) * 1.1\<rparr>)
            scoreCatalogue\<rparr> \<and>
     length scoreCatalogue = 16 \<and>
     sum_list (map (\<lambda>e. preNormalised w e / sum_list (map (preNormalised w) scoreCatalogue))
                 scoreCatalogue) = 1"
proof -
  have v: "validMatchWin (h2h m)"
    using assms by (simp add: validMatchWin_def)
  obtain t c where run: "generateMissingMarkets m =
           Some \<lparr>h2h = h2h m, totals = t,
                 bothTeamsToScore =
                   Some \<lparr>yes = (1 / bttsProbability (h2h m)) * 1.05,
                         no = (1 / (1 - bttsProbability (h2h m))) * 1.05\<rparr>,
                 correctScore = c\<rparr>"
      and c: "correctScoreBlock (h2h m) = Some c"
    using generateMissingMarkets_valid [OF v] by blast
  have c': "c = Some \<lparr>scores =
          map (\<lambda>e. \<lparr>score = fst e,
                     odds = (1 / (preNormalised w e
                                   / sum_list (map (preNormalised w) scoreCatalogue))) * 1.1\<rparr>)
            scoreCatalogue\<rparr>"
    using c correctScoreBlock_valid [OF assms(2)] by (simp add: assms(1))
  have len: "length scoreCatalogue = 16"
    by (simp add: scoreCatalogue_def)
  have "sum_list (map (\<lambda>e. preNormalised w e / sum_list (map (preNormalised w) scoreCatalogue))
                 scoreCatalogue)
        = sum_list (map (preNormalised w) scoreCatalogue)
          / sum_list (map (preNormalised w) scoreCatalogue)"
    by (rule sum_list_divide_const)
  then have one: "sum_list (map (\<lambda>e. preNormalised w e
                      / sum_list (map (preNormalised w) scoreCatalogue)) scoreCatalogue) = 1"
    using scoreCatalogue_total_pos [OF assms(2)] by simp
  show ?thesis
    using run c' len one by simp
qed

theorem generateMissingMarkets_correctScore_witness:
  "validWin \<lparr>home = 2, draw = Some 3, away = 4\<rparr> \<and>
   (\<exists>r. generateMissingMarkets
           \<lparr>h2h = Some \<lparr>home = 2, draw = Some 3, away = 4\<rparr>, totals = None\<rparr> = Some r \<and>
        correctScore r =
          Some \<lparr>scores =
            [\<lparr>score = ''0-0'', odds = 10109 / 800\<rparr>,
             \<lparr>score = ''1-0'', odds = 10109 / 900\<rparr>,
             \<lparr>score = ''0-1'', odds = 10109 / 450\<rparr>,
             \<lparr>score = ''1-1'', odds = 10109 / 1200\<rparr>,
             \<lparr>score = ''2-0'', odds = 10109 / 720\<rparr>,
             \<lparr>score = ''0-2'', odds = 10109 / 360\<rparr>,
             \<lparr>score = ''2-1'', odds = 10109 / 1080\<rparr>,
             \<lparr>score = ''1-2'', odds = 10109 / 540\<rparr>,
             \<lparr>score = ''2-2'', odds = 10109 / 800\<rparr>,
             \<lparr>score = ''3-0'', odds = 10109 / 480\<rparr>,
             \<lparr>score = ''0-3'', odds = 10109 / 240\<rparr>,
             \<lparr>score = ''3-1'', odds = 10109 / 600\<rparr>,
             \<lparr>score = ''1-3'', odds = 10109 / 300\<rparr>,
             \<lparr>score = ''3-2'', odds = 10109 / 450\<rparr>,
             \<lparr>score = ''4-0'', odds = 10109 / 180\<rparr>,
             \<lparr>score = ''0-4'', odds = 10109 / 90\<rparr>]\<rparr>)"
proof -
  have v: "validWin \<lparr>home = 2, draw = Some 3, away = 4\<rparr>"
    by (simp add: validWin_def)
  show ?thesis
    using generateMissingMarkets_correctScore
            [of "\<lparr>h2h = Some \<lparr>home = 2, draw = Some 3, away = 4\<rparr>, totals = None\<rparr>"
                "\<lparr>home = 2, draw = Some 3, away = 4\<rparr>", OF _ v]
          v
    by (simp add: scoreCatalogue_def preNormalised_def impliedProbabilityOf_def
        drawImplied034_def)
qed

text \<open>
  The entry 3-2 of \<open>commonScores\<close> is no single implied probability times a fixed weight:
  it follows the home probability at a fixed away probability and the away probability at
  a fixed home probability (odds 2/3/4, 2/3/5 and 4/3/4 give 3/80, 7/200 and 1/40).
\<close>

theorem correctScore_3_2_counterexample:
  "\<not> (\<exists>wt. \<forall>h a d. 0 < h \<and> h < 1 \<and> 0 < a \<and> a < 1 \<and> 0 < d \<and> d < 1 \<longrightarrow>
          map_of (commonScores h a d) ''3-2'' = Some (h * wt)) \<and>
   \<not> (\<exists>wt. \<forall>h a d. 0 < h \<and> h < 1 \<and> 0 < a \<and> a < 1 \<and> 0 < d \<and> d < 1 \<longrightarrow>
          map_of (commonScores h a d) ''3-2'' = Some (a * wt)) \<and>
   \<not> (\<exists>wt. \<forall>h a d. 0 < h \<and> h < 1 \<and> 0 < a \<and> a < 1 \<and> 0 < d \<and> d < 1 \<longrightarrow>
          map_of (commonScores h a d) ''3-2'' = Some (d * wt))"
proof -
  have e: "map_of (commonScores h a d) ''3-2'' = Some ((h + a) * 0.05)" for h a d
    by (simp add: commonScores_def)
  have home: False
    if "\<forall>h a d. 0 < h \<and> h < 1 \<and> 0 < a \<and> a < 1 \<and> 0 < d \<and> d < 1 \<longrightarrow>
          map_of (commonScores h a d) ''3-2'' = Some (h * wt)" for wt :: real
  proof -
    have "map_of (commonScores (1 / 2) (1 / 4) (1 / 3)) ''3-2'' = Some (1 / 2 * wt)"
         "map_of (commonScores (1 / 2) (1 / 5) (1 / 3)) ''3-2'' = Some (1 / 2 * wt)"
      using that by simp_all
    then show False
      by (simp add: e)
  qed
  have away: False
    if "\<forall>h a d. 0 < h \<and> h < 1 \<and> 0 < a \<and> a < 1 \<and> 0 < d \<and> d < 1 \<longrightarrow>
          map_of (commonScores h a d) ''3-2'' = Some (a * wt)" for wt :: real
  proof -
    have "map_of (commonScores (1 / 2) (1 / 4) (1 / 3)) ''3-2'' = Some (1 / 4 * wt)"
         "map_of (commonScores (1 / 4) (1 / 4) (1 / 3)) ''3-2'' = Some (1 / 4 * wt)"
      using that by simp_all
    then show False
      by (simp add: e)
  qed
  have draw: False
    if "\<forall>h a d. 0 < h \<and> h < 1 \<and> 0 < a \<and> a < 1 \<and> 0 < d \<and> d < 1 \<longrightarrow>
          map_of (commonScores h a d) ''3-2'' = Some (d * wt)" for wt :: real
  proof -
    have "map_of (commonScores (1 / 2) (1 / 4) (1 / 3)) ''3-2'' = Some (1 / 3 * wt)"
         "map_of (commonScores (1 / 4) (1 / 4) (1 / 3)) ''3-2'' = Some (1 / 3 * wt)"
      using that by simp_all
    then show False
      by (simp add: e)
  qed
  show ?thesis
    using home away draw by blast
qed

text \<open>
  C8. Each renormalisation step (after the totals and after the both-teams-to-score
  adjustment of \<open>oddsToProbabilities\<close>, after the totals adjustment of
  \<open>oddsToScoreProbabilitiesWithTotals\<close>) divides every probability of the adjusted list
  by that list's sum (\<open>dividedBySum\<close>). For a well-formed win market and positive odds
  in the other markets the sum is above zero, so no step divides by zero, and each result
  sums to 1. The steps have no guard for a zero sum: whenever an adjusted list sums to
  zero, the step divides by zero (in the model: \<open>None\<close>) instead of returning the list
  unchanged. By the first part this needs an ill-formed market.
\<close>

theorem renormalization_steps:
  "(validWin w \<and> validTotals tm \<and> validBTTS bm \<longrightarrow>
      (\<exists>mid res.
         oddsToProbabilities \<lparr>h2h = Some w, totals = tm, bothTeamsToScore = None,
                              correctScore = c\<rparr> = Some mid \<and>
         oddsToProbabilities \<lparr>h2h = Some w, totals = tm, bothTeamsToScore = bm,
                              correctScore = c\<rparr> = Some res \<and>
         (\<forall>t. tm = Some t \<longrightarrow>
            0 < totalProbability (map (adjustTotals (point t) (normOverOf t))
                                   (baseDistribution w)) \<and>
            mid = dividedBySum (map (adjustTotals (point t) (normOverOf t))
                                  (baseDistribution w))) \<and>
         (\<forall>b. bm = Some b \<longrightarrow>
            0 < totalProbability (map (adjustBTTS (normYesOf b)) mid) \<and>
            res = dividedBySum (map (adjustBTTS (normYesOf b)) mid)) \<and>
         totalProbability mid = 1 \<and> totalProbability res = 1)) \<and>
   (validWin w \<and> point t1 \<noteq> 0 \<and> 0 < over t1 \<and> 0 < under t1 \<longrightarrow>
      (\<exists>res.
         oddsToScoreProbabilitiesWithTotals (home w) (draw w) (away w) (Some (point t1))
           (Some (over t1)) (Some (under t1)) = Some res \<and>
         0 < totalProbability (map (adjustTotals_conv (point t1) (normOverOf t1) (normUnderOf t1))
                                (baseDistribution w)) \<and>
         res = dividedBySum (map (adjustTotals_conv (point t1) (normOverOf t1) (normUnderOf t1))
                               (baseDistribution w)) \<and>
         totalProbability res = 1)) \<and>
   (oddsToProbabilities \<lparr>h2h = Some w2, totals = None, bothTeamsToScore = None,
                         correctScore = c\<rparr> = Some base2 \<and>
    over t2 \<noteq> 0 \<and> under t2 \<noteq> 0 \<and> 1 / over t2 + 1 / under t2 \<noteq> 0 \<and>
    totalProbability (map (adjustTotals (point t2) (normOverOf t2)) base2) = 0 \<longrightarrow>
      oddsToProbabilities \<lparr>h2h = Some w2, totals = Some t2, bothTeamsToScore = bm2,
                           correctScore = c\<rparr> = None) \<and>
   (oddsToProbabilities \<lparr>h2h = Some w3, totals = tm3, bothTeamsToScore = None,
                         correctScore = c\<rparr> = Some mid3 \<and>
    yes b3 \<noteq> 0 \<and> no b3 \<noteq> 0 \<and> 1 / yes b3 + 1 / no b3 \<noteq> 0 \<and>
    totalProbability (map (adjustBTTS (normYesOf b3)) mid3) = 0 \<longrightarrow>
      oddsToProbabilities \<lparr>h2h = Some w3, totals = tm3, bothTeamsToScore = Some b3,
                           correctScore = c\<rparr> = None) \<and>
   (oddsToScoreProbabilities ho dr aw = Some base4 \<and>
    point t4 \<noteq> 0 \<and> over t4 \<noteq> 0 \<and> under t4 \<noteq> 0 \<and> 1 / over t4 + 1 / under t4 \<noteq> 0 \<and>
    totalProbability (map (adjustTotals_conv (point t4) (normOverOf t4) (normUnderOf t4)) base4)
      = 0 \<longrightarrow>
      oddsToScoreProbabilitiesWithTotals ho dr aw (Some (point t4)) (Some (over t4))
        (Some (under t4)) = None)"
proof (intro conjI impI)
  assume "validWin w \<and> validTotals tm \<and> validBTTS bm"
  then show "\<exists>mid res.
         oddsToProbabilities \<lparr>h2h = Some w, totals = tm, bothTeamsToScore = None,
                              correctScore = c\<rparr> = Some mid \<and>
         oddsToProbabilities \<lparr>h2h = Some w, totals = tm, bothTeamsToScore = bm,
                              correctScore = c\<rparr> = Some res \<and>
         (\<forall>t. tm = Some t \<longrightarrow>
            0 < totalProbability (map (adjustTotals (point t) (normOverOf t))
                                   (baseDistribution w)) \<and>
            mid = dividedBySum (map (adjustTotals (point t) (normOverOf t))
                                  (baseDistribution w))) \<and>
         (\<forall>b. bm = Some b \<longrightarrow>
            0 < totalProbability (map (adjustBTTS (normYesOf b)) mid) \<and>
            res = dividedBySum (map (adjustBTTS (normYesOf b)) mid)) \<and>
         totalProbability mid = 1 \<and> totalProbability res = 1"
    using steps_safe [of w tm bm c] by simp
next
  assume "validWin w \<and> point t1 \<noteq> 0 \<and> 0 < over t1 \<and> 0 < under t1"
  then show "\<exists>res.
         oddsToScoreProbabilitiesWithTotals (home w) (draw w) (away w) (Some (point t1))
           (Some (over t1)) (Some (under t1)) = Some res \<and>
         0 < totalProbability (map (adjustTotals_conv (point t1) (normOverOf t1) (normUnderOf t1))
                                (baseDistribution w)) \<and>
         res = dividedBySum (map (adjustTotals_conv (point t1) (normOverOf t1) (normUnderOf t1))
                               (baseDistribution w)) \<and>
         totalProbability res = 1"
    using variant_safe [of w t1] by simp
next
  assume "oddsToProbabilities \<lparr>h2h = Some w2, totals = None, bothTeamsToScore = None,
                         correctScore = c\<rparr> = Some base2 \<and>
    over t2 \<noteq> 0 \<and> under t2 \<noteq> 0 \<and> 1 / over t2 + 1 / under t2 \<noteq> 0 \<and>
    totalProbability (map (adjustTotals (point t2) (normOverOf t2)) base2) = 0"
  then show "oddsToProbabilities \<lparr>h2h = Some w2, totals = Some t2, bothTeamsToScore = bm2,
                           correctScore = c\<rparr> = None"
    using totals_step_unguarded [of w2 c base2 t2 bm2] by simp
next
  assume "oddsToProbabilities \<lparr>h2h = Some w3, totals = tm3, bothTeamsToScore = None,
                         correctScore = c\<rparr> = Some mid3 \<and>
    yes b3 \<noteq> 0 \<and> no b3 \<noteq> 0 \<and> 1 / yes b3 + 1 / no b3 \<noteq> 0 \<and>
    totalProbability (map (adjustBTTS (normYesOf b3)) mid3) = 0"
  then show "oddsToProbabilities \<lparr>h2h = Some w3, totals = tm3, bothTeamsToScore = Some b3,
                           correctScore = c\<rparr> = None"
    using btts_step_unguarded [of w3 tm3 c mid3 b3] by simp
next
  assume "oddsToScoreProbabilities ho dr aw = Some base4 \<and>
    point t4 \<noteq> 0 \<and> over t4 \<noteq> 0 \<and> under t4 \<noteq> 0 \<and> 1 / over t4 + 1 / under t4 \<noteq> 0 \<and>
    totalProbability (map (adjustTotals_conv (point t4) (normOverOf t4) (normUnderOf t4)) base4)
      = 0"
  then show "oddsToScoreProbabilitiesWithTotals ho dr aw (Some (point t4)) (Some (over t4))
        (Some (under t4)) = None"
    using variant_step_unguarded [of ho dr aw base4 t4] by simp
qed



theorem renormalization_steps_witness:
  "(\<exists>res. oddsToProbabilities
            \<lparr>h2h = Some \<lparr>home = 2, draw = Some 3, away = 4\<rparr>,
             totals = Some \<lparr>point = 5 / 2, over = 9 / 5, under = 2\<rparr>,
             bothTeamsToScore = Some \<lparr>yes = 17 / 10, no = 21 / 10\<rparr>,
             correctScore = None\<rparr> = Some res \<and>
          totalProbability res = 1) \<and>
   (\<exists>res. oddsToScoreProbabilitiesWithTotals 2 (Some 3) 4 (Some (5 / 2)) (Some (9 / 5)) (Some 2)
            = Some res \<and>
          totalProbability res = 1) \<and>
   oddsToProbabilities
     \<lparr>h2h = Some \<lparr>home = 2, draw = Some 3, away = 4\<rparr>,
      totals = Some \<lparr>point = - 1, over = 2, under = - 1\<rparr>,
      bothTeamsToScore = None, correctScore = None\<rparr> = None \<and>
   oddsToProbabilities
     \<lparr>h2h = Some \<lparr>home = 2, draw = Some 3, away = 4\<rparr>,
      totals = Some \<lparr>point = 3 / 2, over = 2, under = - 1\<rparr>,
      bothTeamsToScore = Some \<lparr>yes = 1, no = - 2\<rparr>, correctScore = None\<rparr> = None \<and>
   oddsToScoreProbabilitiesWithTotals 2 (Some 3) 4 (Some (- 1)) (Some 2) (Some (- 1)) = None"
proof -
  let ?w = "\<lparr>home = 2, draw = Some 3, away = 4\<rparr>"
  let ?mid = "[\<lparr>home_score = 1, away_score = 0, probability = 14 / 29\<rparr>,
      \<lparr>home_score = 2, away_score = 0, probability = 0\<rparr>,
      \<lparr>home_score = 2, away_score = 1, probability = 0\<rparr>,
      \<lparr>home_score = 3, away_score = 0, probability = 0\<rparr>,
      \<lparr>home_score = 3, away_score = 1, probability = 0\<rparr>,
      \<lparr>home_score = 4, away_score = 0, probability = 0\<rparr>,
      \<lparr>home_score = 3, away_score = 2, probability = 0\<rparr>,
      \<lparr>home_score = 0, away_score = 0, probability = 8 / 29\<rparr>,
      \<lparr>home_score = 1, away_score = 1, probability = 0\<rparr>,
      \<lparr>home_score = 2, away_score = 2, probability = 0\<rparr>,
      \<lparr>home_score = 3, away_score = 3, probability = 0\<rparr>,
      \<lparr>home_score = 0, away_score = 1, probability = 7 / 29\<rparr>,
      \<lparr>home_score = 0, away_score = 2, probability = 0\<rparr>,
      \<lparr>home_score = 1, away_score = 2, probability = 0\<rparr>,
      \<lparr>home_score = 0, away_score = 3, probability = 0\<rparr>,
      \<lparr>home_score = 1, away_score = 3, probability = 0\<rparr>,
      \<lparr>home_score = 0, away_score = 4, probability = 0\<rparr>,
      \<lparr>home_score = 2, away_score = 3, probability = 0\<rparr>]"
  have v: "validWin ?w"
    by (simp add: validWin_def)
  have safe: "\<exists>res. oddsToProbabilities
            \<lparr>h2h = Some ?w,
             totals = Some \<lparr>point = 5 / 2, over = 9 / 5, under = 2\<rparr>,
             bothTeamsToScore = Some \<lparr>yes = 17 / 10, no = 21 / 10\<rparr>,
             correctScore = None\<rparr> = Some res \<and>
          totalProbability res = 1"
    using renormalization_steps
            [where w = ?w and tm = "Some \<lparr>point = 5 / 2, over = 9 / 5, under = 2\<rparr>"
               and bm = "Some \<lparr>yes = 17 / 10, no = 21 / 10\<rparr>" and c = None,
             THEN conjunct1]
          v
    by (auto simp: validTotals_def validBTTS_def)
  have safe_variant: "\<exists>res.
          oddsToScoreProbabilitiesWithTotals 2 (Some 3) 4 (Some (5 / 2)) (Some (9 / 5)) (Some 2)
            = Some res \<and>
          totalProbability res = 1"
    using renormalization_steps
            [where w = ?w and ?t1.0 = "\<lparr>point = 5 / 2, over = 9 / 5, under = 2\<rparr>",
             THEN conjunct2, THEN conjunct1]
          v
    by auto
  have base: "oddsToProbabilities
     \<lparr>h2h = Some ?w, totals = None, bothTeamsToScore = None, correctScore = None\<rparr>
       = Some (baseDistribution ?w)"
    by (simp add: run_defs baseDistribution_def)
  have zero_totals: "totalProbability
       (map (adjustTotals (- 1) (normOverOf \<lparr>point = - 1, over = 2, under = - 1\<rparr>))
          (baseDistribution ?w)) = 0"
    by (simp add: baseDistribution_def adjustTotals_def normOverOf_def totalProbability_def)
  have totals_none: "oddsToProbabilities
     \<lparr>h2h = Some ?w,
      totals = Some \<lparr>point = - 1, over = 2, under = - 1\<rparr>,
      bothTeamsToScore = None, correctScore = None\<rparr> = None"
    using renormalization_steps
            [where ?w2.0 = ?w and ?t2.0 = "\<lparr>point = - 1, over = 2, under = - 1\<rparr>"
               and ?base2.0 = "baseDistribution ?w" and ?bm2.0 = None and c = None,
             THEN conjunct2, THEN conjunct2, THEN conjunct1]
          base zero_totals
    by simp
  have mid: "oddsToProbabilities
     \<lparr>h2h = Some ?w,
      totals = Some \<lparr>point = 3 / 2, over = 2, under = - 1\<rparr>,
      bothTeamsToScore = None, correctScore = None\<rparr> = Some ?mid"
    by (simp add: run_defs)
  have zero_btts: "totalProbability
       (map (adjustBTTS (normYesOf \<lparr>yes = 1, no = - 2\<rparr>)) ?mid) = 0"
    by (simp add: adjustBTTS_def normYesOf_def totalProbability_def)
  have btts_none: "oddsToProbabilities
     \<lparr>h2h = Some ?w,
      totals = Some \<lparr>point = 3 / 2, over = 2, under = - 1\<rparr>,
      bothTeamsToScore = Some \<lparr>yes = 1, no = - 2\<rparr>, correctScore = None\<rparr> = None"
    using renormalization_steps
            [where ?w3.0 = ?w and ?tm3.0 = "Some \<lparr>point = 3 / 2, over = 2, under = - 1\<rparr>"
               and ?mid3.0 = ?mid and ?b3.0 = "\<lparr>yes = 1, no = - 2\<rparr>" and c = None,
             THEN conjunct2, THEN conjunct2, THEN conjunct2, THEN conjunct1]
          mid zero_btts
    by simp
  have base_variant: "oddsToScoreProbabilities 2 (Some 3) 4 = Some (baseDistribution ?w)"
    by (simp add: run_defs baseDistribution_def)
  have zero_variant: "totalProbability
       (map (adjustTotals_conv (- 1) (normOverOf \<lparr>point = - 1, over = 2, under = - 1\<rparr>)
               (normUnderOf \<lparr>point = - 1, over = 2, under = - 1\<rparr>))
          (baseDistribution ?w)) = 0"
    by (simp add: baseDistribution_def adjustTotals_conv_def normOverOf_def normUnderOf_def
        totalProbability_def)
  have variant_none:
    "oddsToScoreProbabilitiesWithTotals 2 (Some 3) 4 (Some (- 1)) (Some 2) (Some (- 1)) = None"
    using renormalization_steps
            [where ho = 2 and dr = "Some 3" and aw = 4
               and ?base4.0 = "baseDistribution ?w"
               and ?t4.0 = "\<lparr>point = - 1, over = 2, under = - 1\<rparr>",
             THEN conjunct2, THEN conjunct2, THEN conjunct2, THEN conjunct2]
          base_variant zero_variant
    by simp
  show ?thesis
    using safe safe_variant totals_none btts_none variant_none by (intro conjI)
qed

text \<open>
  Zero sums reached through the functions. \<lparr>home = 2, draw = Some 3, away = 4\<rparr>ith point -1 and odds 2 and -1,
  \<open>normOver = -1\<close> and \<open>normUnder = 2\<close>: every entry lies above the point and is
  multiplied by 0, the adjusted list sums to 0, and both functions divide 0 by 0 where a
  guard for a zero sum would return the 18 zeros. \<lparr>home = 2, draw = Some 3, away = 4\<rparr>ith point 1.5 and the same odds only 1-0, 0-0
  and 0-1 keep a probability; a both-teams-to-score market with odds 1 and -2 has
  \<open>normYes = 2\<close> and multiplies exactly these three by 0, so that step divides 0 by 0 as
  well.
\<close>

theorem renormalize_zero_sum_counterexample:
  "map_option (\<lambda>sps. totalProbability (map (adjustTotals_conv (- 1) (- 1) 2) sps))
     (oddsToScoreProbabilities 2 (Some 3) 4) = Some 0 \<and>
   oddsToScoreProbabilitiesWithTotals 2 (Some 3) 4 (Some (- 1)) (Some 2) (Some (- 1)) = None \<and>
   oddsToProbabilities
     \<lparr>h2h = Some \<lparr>home = 2, draw = Some 3, away = 4\<rparr>,
      totals = Some \<lparr>point = - 1, over = 2, under = - 1\<rparr>,
      bothTeamsToScore = None, correctScore = None\<rparr> = None \<and>
   map_option (map probability)
     (oddsToProbabilities
        \<lparr>h2h = Some \<lparr>home = 2, draw = Some 3, away = 4\<rparr>,
         totals = Some \<lparr>point = 3 / 2, over = 2, under = - 1\<rparr>,
         bothTeamsToScore = None, correctScore = None\<rparr>)
     = Some [14 / 29, 0, 0, 0, 0, 0, 0, 8 / 29, 0, 0, 0, 7 / 29, 0, 0, 0, 0, 0, 0] \<and>
   map_option (\<lambda>sps. totalProbability (map (adjustBTTS 2) sps))
     (oddsToProbabilities
        \<lparr>h2h = Some \<lparr>home = 2, draw = Some 3, away = 4\<rparr>,
         totals = Some \<lparr>point = 3 / 2, over = 2, under = - 1\<rparr>,
         bothTeamsToScore = None, correctScore = None\<rparr>) = Some 0 \<and>
   oddsToProbabilities
     \<lparr>h2h = Some \<lparr>home = 2, draw = Some 3, away = 4\<rparr>,
      totals = Some \<lparr>point = 3 / 2, over = 2, under = - 1\<rparr>,
      bothTeamsToScore = Some \<lparr>yes = 1, no = - 2\<rparr>, correctScore = None\<rparr> = None"
  by (simp add: run_defs)




text \<open>
  C10. Without draw odds the distributor takes 0 as the draw implied probability: in the
  18-entry result the entries 0-0, 1-1, 2-2 and 3-3 (positions 7 to 10) have probability 0
  and the 14 home-win and away-win entries sum to 1. This holds with or without a totals
  and a both-teams-to-score market (of positive odds), since both steps only multiply and
  divide.
\<close>

theorem no_draw_odds_zero_draws:
  assumes "h2h m = Some w" and "draw w = None" and "1 < home w" and "1 < away w"
    and "validTotals (totals m)" and "validBTTS (bothTeamsToScore m)"
  shows "\<exists>sps. oddsToProbabilities m = Some sps \<and>
     map (\<lambda>sp. (home_score sp, away_score sp)) sps =
       [(1, 0), (2, 0), (2, 1), (3, 0), (3, 1), (4, 0), (3, 2),
        (0, 0), (1, 1), (2, 2), (3, 3),
        (0, 1), (0, 2), (1, 2), (0, 3), (1, 3), (0, 4), (2, 3)] \<and>
     probability (sps ! 7) = 0 \<and> probability (sps ! 8) = 0 \<and>
     probability (sps ! 9) = 0 \<and> probability (sps ! 10) = 0 \<and>
     sum_list (map probability (take 7 sps @ drop 11 sps)) = 1"
proof -
  have v: "validWin w"
    using assms(2,3,4) by (simp add: validWin_def)
  obtain k where k: "totalsStage (totals m) (winBase w) \<bind> bttsStage (bothTeamsToScore m)
                       = Some (map (scaleBy k) (winBase w))"
      "sum_list (map probability (map (scaleBy k) (winBase w))) = 1"
    using stages_scaled [OF winBase_positive [OF v] winBase_sum [OF v] assms(5,6)] by blast
  let ?sps = "map (scaleBy k) (winBase w)"
  have run: "oddsToProbabilities m = Some ?sps"
    by (simp only: oddsToProbabilities_stages [OF assms(1) v] k(1))
  have shape: "?sps = map (scaleBy k) 
      [\<lparr>home_score = 1, away_score = 0, probability = (1 / home w) / winTotal w * 0.35\<rparr>,
       \<lparr>home_score = 2, away_score = 0, probability = (1 / home w) / winTotal w * 0.20\<rparr>,
       \<lparr>home_score = 2, away_score = 1, probability = (1 / home w) / winTotal w * 0.18\<rparr>,
       \<lparr>home_score = 3, away_score = 0, probability = (1 / home w) / winTotal w * 0.10\<rparr>,
       \<lparr>home_score = 3, away_score = 1, probability = (1 / home w) / winTotal w * 0.10\<rparr>,
       \<lparr>home_score = 4, away_score = 0, probability = (1 / home w) / winTotal w * 0.04\<rparr>,
       \<lparr>home_score = 3, away_score = 2, probability = (1 / home w) / winTotal w * 0.03\<rparr>,
       \<lparr>home_score = 0, away_score = 0, probability = 0\<rparr>,
       \<lparr>home_score = 1, away_score = 1, probability = 0\<rparr>,
       \<lparr>home_score = 2, away_score = 2, probability = 0\<rparr>,
       \<lparr>home_score = 3, away_score = 3, probability = 0\<rparr>,
       \<lparr>home_score = 0, away_score = 1, probability = (1 / away w) / winTotal w * 0.35\<rparr>,
       \<lparr>home_score = 0, away_score = 2, probability = (1 / away w) / winTotal w * 0.20\<rparr>,
       \<lparr>home_score = 1, away_score = 2, probability = (1 / away w) / winTotal w * 0.18\<rparr>,
       \<lparr>home_score = 0, away_score = 3, probability = (1 / away w) / winTotal w * 0.10\<rparr>,
       \<lparr>home_score = 1, away_score = 3, probability = (1 / away w) / winTotal w * 0.10\<rparr>,
       \<lparr>home_score = 0, away_score = 4, probability = (1 / away w) / winTotal w * 0.04\<rparr>,
       \<lparr>home_score = 2, away_score = 3, probability = (1 / away w) / winTotal w * 0.03\<rparr>]"
    by (simp only: winBase_no_draw [OF assms(2)])
  note facts = scaled_draws_zero [OF shape]
  have rest: "sum_list (map probability (take 7 ?sps @ drop 11 ?sps)) = 1"
    by (simp only: facts(6) k(2))
  show ?thesis
    using run facts(1,2,3,4,5) rest by (intro exI [of _ ?sps] conjI)
qed

theorem no_draw_odds_zero_draws_witness:
  "validTotals (Some \<lparr>point = 5 / 2, over = 9 / 5, under = 2\<rparr>) \<and>
   validBTTS (Some \<lparr>yes = 17 / 10, no = 21 / 10\<rparr>) \<and>
   (\<exists>sps. oddsToProbabilities
            \<lparr>h2h = Some \<lparr>home = 2, draw = None, away = 3\<rparr>,
             totals = Some \<lparr>point = 5 / 2, over = 9 / 5, under = 2\<rparr>,
             bothTeamsToScore = Some \<lparr>yes = 17 / 10, no = 21 / 10\<rparr>,
             correctScore = None\<rparr> = Some sps \<and>
          length sps = 18 \<and>
          probability (sps ! 7) = 0 \<and> probability (sps ! 8) = 0 \<and>
          probability (sps ! 9) = 0 \<and> probability (sps ! 10) = 0 \<and>
          sum_list (map probability (take 7 sps @ drop 11 sps)) = 1)"
proof -
  have t: "validTotals (Some \<lparr>point = 5 / 2, over = 9 / 5, under = 2\<rparr>)"
    by (simp add: validTotals_def)
  have b: "validBTTS (Some \<lparr>yes = 17 / 10, no = 21 / 10\<rparr>)"
    by (simp add: validBTTS_def)
  from no_draw_odds_zero_draws
    [of "\<lparr>h2h = Some \<lparr>home = 2, draw = None, away = 3\<rparr>,
             totals = Some \<lparr>point = 5 / 2, over = 9 / 5, under = 2\<rparr>,
             bothTeamsToScore = Some \<lparr>yes = 17 / 10, no = 21 / 10\<rparr>,
             correctScore = None\<rparr>" "\<lparr>home = 2, draw = None, away = 3\<rparr>"]
  obtain sps where s: "oddsToProbabilities
            \<lparr>h2h = Some \<lparr>home = 2, draw = None, away = 3\<rparr>,
             totals = Some \<lparr>point = 5 / 2, over = 9 / 5, under = 2\<rparr>,
             bothTeamsToScore = Some \<lparr>yes = 17 / 10, no = 21 / 10\<rparr>,
             correctScore = None\<rparr> = Some sps"
     "map (\<lambda>sp. (home_score sp, away_score sp)) sps =
       [(1, 0), (2, 0), (2, 1), (3, 0), (3, 1), (4, 0), (3, 2),
        (0, 0), (1, 1), (2, 2), (3, 3),
        (0, 1), (0, 2), (1, 2), (0, 3), (1, 3), (0, 4), (2, 3)]"
     "probability (sps ! 7) = 0" "probability (sps ! 8) = 0"
     "probability (sps ! 9) = 0" "probability (sps ! 10) = 0"
     "sum_list (map probability (take 7 sps @ drop 11 sps)) = 1"
    using t b by auto
  have "length (map (\<lambda>sp. (home_score sp, away_score sp)) sps) = 18"
    by (simp only: s(2)) simp
  then have "length sps = 18" by simp
  with s t b show ?thesis by blast
qed

end
